theory Spec2Isabelle
  imports Complex_Main
begin

section \<open>Numbers of the program\<close>

text \<open>
  The program computes on JavaScript numbers. In the main script they are modelled as reals:
  the rounding of IEEE doubles and signed zeros are outside that part of the model. The
  original script rounds its factor up with \<^verbatim>\<open>Math.ceil\<close>, which makes the rounding of its
  arithmetic visible, and is modelled in double arithmetic. A value on which
  \<^verbatim>\<open>Number.isFinite\<close> is false (null, undefined, NaN, an infinity) is \<open>None\<close> of
  \<open>real option\<close> wherever the code only tests finiteness; where the code compares a
  possibly non-finite number, the type \<open>jsnum\<close> keeps NaN and the infinities apart.
\<close>

datatype jsnum = Num real | NaN | PosInf | NegInf

text \<open>The operator \<^verbatim>\<open>%\<close>: the remainder of the division truncated towards zero.\<close>

definition js_trunc :: "real \<Rightarrow> int" where
  "js_trunc x = (if 0 \<le> x then \<lfloor>x\<rfloor> else \<lceil>x\<rceil>)"

definition js_rem :: "real \<Rightarrow> real \<Rightarrow> real" where
  "js_rem a b = a - b * of_int (js_trunc (a / b))"

text \<open>\<^verbatim>\<open>Math.atan2(y, x)\<close>, the angle of the point (x, y), in \<open>[-pi, pi]\<close>.\<close>

definition Math_atan2 :: "real \<Rightarrow> real \<Rightarrow> real" where
  "Math_atan2 y x =
     (if 0 < x then arctan (y / x)
      else if x < 0 then (if 0 \<le> y then arctan (y / x) + pi else arctan (y / x) - pi)
      else if 0 < y then pi / 2
      else if y < 0 then - (pi / 2)
      else 0)"

text \<open>
  \<^verbatim>\<open>n.toFixed(d)\<close> prints the multiple of \<open>10^-d\<close> nearest to \<open>n\<close>; it rounds the
  magnitude and restores the sign, and on a tie takes the larger magnitude. \<open>toFixed\<close>
  gives the number that is printed.
\<close>

definition toFixed :: "real \<Rightarrow> nat \<Rightarrow> real" where
  "toFixed n d =
     (if n < 0 then - (of_int \<lfloor>- n * 10 ^ d + 1 / 2\<rfloor> / 10 ^ d)
      else of_int \<lfloor>n * 10 ^ d + 1 / 2\<rfloor> / 10 ^ d)"

section \<open>Double arithmetic\<close>

text \<open>
  IEEE 754 binary64, for the original script: \<open>fl x\<close> is the double nearest to \<open>x\<close>, a
  multiple of \<open>2 ^ (e - 52)\<close> where \<open>2 ^ e\<close> is the power of two at or below the magnitude
  of \<open>x\<close> (never below \<open>2 ^ -1022\<close>, which gives the gradual underflow), a tie going to
  the even multiple. Each arithmetic operation of the script returns \<open>fl\<close> of the exact result.
  A decimal literal such as \<^verbatim>\<open>0.004\<close> is \<open>fl 0.004\<close>. Overflow to an infinity is not modelled.
\<close>

definition rne :: "real \<Rightarrow> int" where
  "rne y = (let f = \<lfloor>y\<rfloor> in
             if y - of_int f < 1 / 2 then f
             else if 1 / 2 < y - of_int f then f + 1
             else if even f then f else f + 1)"

definition expo :: "real \<Rightarrow> int" where
  "expo x = max \<lfloor>log 2 \<bar>x\<bar>\<rfloor> (- 1022)"

definition fl :: "real \<Rightarrow> real" where
  "fl x = (if x = 0 then 0
           else of_int (rne (x / 2 powi (expo x - 52))) * 2 powi (expo x - 52))"

definition fadd :: "real \<Rightarrow> real \<Rightarrow> real" where
  "fadd a b = fl (a + b)"

definition fsub :: "real \<Rightarrow> real \<Rightarrow> real" where
  "fsub a b = fl (a - b)"

definition fmul :: "real \<Rightarrow> real \<Rightarrow> real" where
  "fmul a b = fl (a * b)"

definition fdiv :: "real \<Rightarrow> real \<Rightarrow> real" where
  "fdiv a b = fl (a / b)"

text \<open>
  \<^verbatim>\<open>Math.exp\<close>: the language fixes its value 1 at zero and leaves the approximation
  elsewhere to the engine, which is the parameter \<open>engine_exp\<close>.
\<close>

definition Math_exp :: "(real \<Rightarrow> real) \<Rightarrow> real \<Rightarrow> real" where
  "Math_exp engine_exp x = (if x = 0 then 1 else engine_exp x)"

section \<open>Parsing and validation\<close>

datatype crs = EPSG31370 | EPSG3812

text \<open>The false northing \<^verbatim>\<open>+y_0\<close> of the two projection definitions of \<^verbatim>\<open>defineCrs\<close>.\<close>

fun false_northing :: "crs \<Rightarrow> real" where
  "false_northing EPSG31370 = 5400088.438"
| "false_northing EPSG3812 = 665262"

definition validateLonLat :: "real option \<Rightarrow> real option \<Rightarrow> string option" where
  "validateLonLat lon0 lat0 =
     (case (lon0, lat0) of
        (Some lo, Some la) \<Rightarrow>
          if la < -90 \<or> 90 < la then Some ''Latitude must be between -90 and 90.''
          else if lo < -180 \<or> 180 < lo then Some ''Longitude must be between -180 and 180.''
          else None
      | _ \<Rightarrow> Some ''Longitude and latitude must be numbers.'')"

definition detectLambertCrs :: "real option \<Rightarrow> crs" where
  "detectLambertCrs northing =
     (case northing of
        Some n \<Rightarrow> if n > 2000000 then EPSG31370 else EPSG3812
      | None \<Rightarrow> EPSG3812)"

section \<open>Geodesy: destination point\<close>

record latlon =
  lat :: real
  lon :: real

definition degToRad :: "real \<Rightarrow> real" where
  "degToRad d = (d * pi) / 180"

definition radToDeg :: "real \<Rightarrow> real" where
  "radToDeg r = (r * 180) / pi"

definition destinationPoint :: "real \<Rightarrow> real \<Rightarrow> real \<Rightarrow> real \<Rightarrow> latlon" where
  "destinationPoint lat0 lon0 distanceM bearingDeg0 =
     (let R = 6371000;
          phi1 = degToRad lat0;
          lam1 = degToRad lon0;
          theta = degToRad bearingDeg0;
          delta = distanceM / R;
          sinphi2 = sin phi1 * cos delta + cos phi1 * sin delta * cos theta;
          phi2 = arcsin sinphi2;
          y = sin theta * sin delta * cos phi1;
          x = cos delta - sin phi1 * sin phi2;
          lam2 = lam1 + Math_atan2 y x;
          lon2 = radToDeg lam2;
          lon2n = js_rem (lon2 + 540) 360 - 180
      in \<lparr>lat = radToDeg phi2, lon = lon2n\<rparr>)"


section \<open>Elevation service\<close>

datatype error =
    PleaseEnterAddress
  | GeocodingFailed nat
  | NoGeocodingResults
  | ElevationRequestFailed nat
  | UnexpectedElevationResponse
  | NoSiteElevation
  | NoSampledElevations
  | BadReferenceHeight
  | BadLonLat string
  | BadLambertInput
  | BadLambertConversion string

text \<open>
  A sample point as \<^verbatim>\<open>computeOrographyFactorComplex\<close> builds it; \<open>bearingDeg\<close> is
  \<open>None\<close> for the \<^verbatim>\<open>null\<close> of the centre.
\<close>

record sample_point = latlon +
  label :: string
  distanceM :: real
  bearingDeg :: "real option"

text \<open>
  What the elevation API answers to one request: a status that is not ok, or a JSON body.
  The body is \<open>None\<close> when it has no array \<^verbatim>\<open>elevation\<close>; an entry of the array is
  \<open>None\<close> when it is not a number.
\<close>

datatype elevation_response = HttpFailure nat | Json "jsnum option list option"

fun finiteOrNull :: "jsnum option \<Rightarrow> real option" where
  "finiteOrNull (Some (Num e)) = Some e"
| "finiteOrNull _ = None"

definition fetchElevations ::
  "(sample_point list \<Rightarrow> elevation_response) \<Rightarrow> sample_point list \<Rightarrow> error + real option list" where
  "fetchElevations api pts =
     (case api pts of
        HttpFailure st \<Rightarrow> Inl (ElevationRequestFailed st)
      | Json None \<Rightarrow> Inl UnexpectedElevationResponse
      | Json (Some es) \<Rightarrow>
          if length es \<noteq> length pts then Inl UnexpectedElevationResponse
          else Inr (map finiteOrNull es))"

section \<open>Orography factor computation\<close>

definition bearings :: "(string \<times> real) list" where
  "bearings = [(''N'', 0), (''E'', 90), (''S'', 180), (''W'', 270)]"

definition distances :: "real list" where
  "distances = [500, 1000]"

text \<open>The array \<^verbatim>\<open>points\<close>: the centre first, then the two loops over bearings and distances.\<close>

definition samplePoints :: "real \<Rightarrow> real \<Rightarrow> sample_point list" where
  "samplePoints lat0 lon0 =
     \<lparr>lat = lat0, lon = lon0, label = ''CENTER'', distanceM = 0, bearingDeg = None\<rparr>
     # concat (map (\<lambda>(name, deg).
                      map (\<lambda>d. let p = destinationPoint lat0 lon0 d deg
                                in \<lparr>lat = lat p, lon = lon p, label = name,
                                    distanceM = d, bearingDeg = Some deg\<rparr>)
                          distances)
                   bearings)"

record orography =
  c0 :: real
  Ac :: real
  Am :: real
  points :: "sample_point list"
  elevations :: "real option list"

text \<open>
  \<^verbatim>\<open>elevations[0]\<close> of an empty array is \<^verbatim>\<open>undefined\<close>, which is not finite. In the sum,
  \<^verbatim>\<open>acc + null\<close> is \<open>acc\<close>; the check before it excludes the case.
\<close>

definition computeOrographyFactorComplex ::
  "(sample_point list \<Rightarrow> elevation_response) \<Rightarrow> real \<Rightarrow> real \<Rightarrow> real option \<Rightarrow> error + orography" where
  "computeOrographyFactorComplex api lon0 lat0 zRefMeters =
     (let pts = samplePoints lat0 lon0 in
      case fetchElevations api pts of
        Inl e \<Rightarrow> Inl e
      | Inr elevs \<Rightarrow>
         (case (case elevs of [] \<Rightarrow> None | e # _ \<Rightarrow> e) of
            None \<Rightarrow> Inl NoSiteElevation
          | Some ac \<Rightarrow>
             (let sampleElevs = drop 1 elevs in
              if list_ex (\<lambda>e. e = None) sampleElevs then Inl NoSampledElevations
              else
                (let sumSamples = foldl (\<lambda>acc e. case e of Some v \<Rightarrow> acc + v | None \<Rightarrow> acc) 0 sampleElevs;
                     am = (2 * ac + sumSamples) / 10;
                     z = max 0 (case zRefMeters of Some h \<Rightarrow> h | None \<Rightarrow> 10);
                     attenuation = exp (- 0.014 * max 0 (z - 10));
                     c = 1 + 0.004 * (ac - am) * attenuation;
                     c' = (if c < 1 then 1 else c)
                 in Inr \<lparr>c0 = c', Ac = ac, Am = am, points = pts, elevations = elevs\<rparr>))))"

section \<open>Main runner\<close>

datatype mode = lonlat | address | lambert

text \<open>
  The form: each numeric field holds the number that \<^verbatim>\<open>Number(String(v).trim())\<close> reads
  from its text; \<open>lambertCrsEl\<close> is \<open>None\<close> for the choice \<^verbatim>\<open>auto\<close>.
\<close>

record form =
  inputType :: mode
  zRefEl :: jsnum
  lonEl :: jsnum
  latEl :: jsnum
  addressEl :: string
  countryCodeEl :: string
  eastingEl :: jsnum
  northingEl :: jsnum
  lambertCrsEl :: "crs option"

fun toNumber :: "jsnum \<Rightarrow> real option" where
  "toNumber (Num n) = Some n"
| "toNumber _ = None"

text \<open>
  The collaborators outside the repository: the geocoding request behind
  \<^verbatim>\<open>geocodeAddress\<close> (its answer: longitude, latitude, label), the two directions of the
  Proj4js transform, and the elevation API.
\<close>

record services =
  geocodeAddress :: "string \<Rightarrow> string \<Rightarrow> error + (real \<times> real \<times> string)"
  lambertToWgs84 :: "real \<Rightarrow> real \<Rightarrow> crs \<Rightarrow> real \<times> real"
  wgs84ToLambert :: "real \<Rightarrow> real \<Rightarrow> crs \<Rightarrow> real \<times> real"
  elevationApi :: "sample_point list \<Rightarrow> elevation_response"

datatype status = Blank | Fetching | Done | Failed error

text \<open>
  The output elements. A text element is \<open>None\<close> when it shows the dash; \<open>warningEl\<close> is
  True when the warning is visible. Numbers are stored as \<^verbatim>\<open>toFixed\<close> prints them.
\<close>

record display =
  coordsLine1 :: "(real \<times> real \<times> string) option"
  coordsLine2 :: "(crs \<times> real \<times> real) option"
  orographyFactorEl :: "real option"
  AcEl :: "real option"
  AmEl :: "real option"
  warningEl :: bool
  samplesTbody :: "(sample_point \<times> real option) list"
  statusEl :: status

definition clearOutputs :: "display \<Rightarrow> display" where
  "clearOutputs d =
     \<lparr>coordsLine1 = None, coordsLine2 = None, orographyFactorEl = None, AcEl = None,
      AmEl = None, warningEl = False, samplesTbody = [], statusEl = Blank\<rparr>"

fun crs_name :: "crs \<Rightarrow> string" where
  "crs_name EPSG31370 = ''EPSG:31370''"
| "crs_name EPSG3812 = ''EPSG:3812''"

text \<open>
  The three input modes of \<^verbatim>\<open>run\<close>: the longitude, latitude and label they resolve
  to, or the error thrown.
\<close>

definition resolveInput :: "form \<Rightarrow> services \<Rightarrow> error + (real \<times> real \<times> string)" where
  "resolveInput f sv =
     (case inputType f of
        lonlat \<Rightarrow>
          (case validateLonLat (toNumber (lonEl f)) (toNumber (latEl f)) of
             Some err \<Rightarrow> Inl (BadLonLat err)
           | None \<Rightarrow> Inr (the (toNumber (lonEl f)), the (toNumber (latEl f)), []))
      | address \<Rightarrow> geocodeAddress sv (addressEl f) (countryCodeEl f)
      | lambert \<Rightarrow>
          (case (toNumber (eastingEl f), toNumber (northingEl f)) of
             (Some x, Some y) \<Rightarrow>
               (let crs = (case lambertCrsEl f of None \<Rightarrow> detectLambertCrs (Some y)
                                               | Some c \<Rightarrow> c);
                    w = lambertToWgs84 sv x y crs
                in case validateLonLat (Some (fst w)) (Some (snd w)) of
                     Some err \<Rightarrow> Inl (BadLambertConversion err)
                   | None \<Rightarrow> Inr (fst w, snd w, ''from '' @ crs_name crs))
           | _ \<Rightarrow> Inl BadLambertInput))"

text \<open>
  \<^verbatim>\<open>run\<close> returns the error it throws, if any, and the display as it stands then: what
  was written before the throw stays written.
\<close>

definition run :: "form \<Rightarrow> services \<Rightarrow> display \<Rightarrow> error option \<times> display" where
  "run f sv d0 =
     (let d1 = d0\<lparr>statusEl := Blank, warningEl := False, samplesTbody := []\<rparr> in
      case toNumber (zRefEl f) of
        None \<Rightarrow> (Some BadReferenceHeight, d1)
      | Some zRef \<Rightarrow>
          if zRef < 0 then (Some BadReferenceHeight, d1)
          else
            (case resolveInput f sv of
               Inl e \<Rightarrow> (Some e, d1)
             | Inr (lon1, lat1, label1) \<Rightarrow>
                 (let lambertDisplayCrs =
                        (case (inputType f, lambertCrsEl f) of
                           (lambert, Some c) \<Rightarrow> c
                         | _ \<Rightarrow> EPSG31370);
                      lam = wgs84ToLambert sv lon1 lat1 lambertDisplayCrs;
                      d2 = d1\<lparr>coordsLine1 := Some (toFixed lon1 6, toFixed lat1 6, label1),
                              coordsLine2 := Some (lambertDisplayCrs, toFixed (fst lam) 3,
                                                   toFixed (snd lam) 3),
                              statusEl := Fetching\<rparr>
                  in case computeOrographyFactorComplex (elevationApi sv) lon1 lat1 (Some zRef) of
                       Inl e \<Rightarrow> (Some e, d2)
                     | Inr r \<Rightarrow>
                         (None,
                          d2\<lparr>orographyFactorEl := Some (toFixed (c0 r) 3),
                             AcEl := Some (toFixed (Ac r) 1),
                             AmEl := Some (toFixed (Am r) 1),
                             samplesTbody := zip (points r) (elevations r),
                             warningEl := (c0 r > 1.15),
                             statusEl := Done\<rparr>))))"

text \<open>The submit handler: clear the outputs, run, and show the error of a failed run.\<close>

definition submit :: "form \<Rightarrow> services \<Rightarrow> display \<Rightarrow> display" where
  "submit f sv d =
     (case run f sv (clearOutputs d) of
        (Some e, d') \<Rightarrow> d'\<lparr>statusEl := Failed e\<rparr>
      | (None, d') \<Rightarrow> d')"

section \<open>The original calculation of script.js\<close>

text \<open>
  The page of the original script. An elevation element holds what
  \<^verbatim>\<open>parseFloat(text.split(" ")[0])\<close> reads from its text, \<open>None\<close> when that is not finite
  (an empty element, or the text Data not available); \<open>height\<close> is the parsed tower height.
  \<open>orography_factor\<close> is \<open>None\<close> as long as nothing was written to it.
\<close>

record page =
  elevation :: "real option"
  elevation_north_05km :: "real option"
  elevation_north_1km :: "real option"
  elevation_south_05km :: "real option"
  elevation_south_1km :: "real option"
  elevation_east_05km :: "real option"
  elevation_east_1km :: "real option"
  elevation_west_05km :: "real option"
  elevation_west_1km :: "real option"
  height :: jsnum
  orography_factor_comment :: string
  orography_factor :: "real option"

definition comment_flat :: string where
  "comment_flat = ''Site is considered flat. Standard pieces may be used''"

definition comment_steep :: string where
  "comment_steep = ''Site is NOT flat. A detailed analysis is required. Standard pieces may not be used without an individual stability study.''"

definition comment_not_flat :: string where
  "comment_not_flat = ''Site is NOT flat. Standard pieces may not be used without an individual stability study.''"

text \<open>
  The requests of \<^verbatim>\<open>calculateAllDirectons\<close>, in the order they are sent: the element that
  receives the answer, and the latitude and longitude asked for.
\<close>

definition calculateAllDirectons :: "real \<Rightarrow> real \<Rightarrow> (string \<times> real \<times> real) list" where
  "calculateAllDirectons latitude longitude =
     [(''north_05km'', latitude + (0.5 / 111), longitude),
      (''south_05km'', latitude - (0.5 / 111), longitude),
      (''east_05km'', latitude, longitude + (0.5 / (111 * cos (latitude * pi / 180)))),
      (''west_05km'', latitude, longitude - (0.5 / (111 * cos (latitude * pi / 180)))),
      (''north_1km'', latitude + (1 / 111), longitude),
      (''south_1km'', latitude - (1 / 111), longitude),
      (''east_1km'', latitude, longitude + (1 / (111 * cos (latitude * pi / 180)))),
      (''west_1km'', latitude, longitude - (1 / (111 * cos (latitude * pi / 180))))]"

text \<open>
  \<^verbatim>\<open>calculateTotalElevation\<close>, in double arithmetic and in the order of its statements.
  The sums \<^verbatim>\<open>sum1km\<close> and \<^verbatim>\<open>sum05km\<close> add four elevations from the left.
\<close>

definition sumOfFour :: "real \<Rightarrow> real \<Rightarrow> real \<Rightarrow> real \<Rightarrow> real" where
  "sumOfFour a b c d = fadd (fadd (fadd a b) c) d"

text \<open>\<^verbatim>\<open>Am = 1 / 10 * (2 * elevation + sum1km + sum05km)\<close>.\<close>

definition legacyAm :: "real \<Rightarrow> real \<Rightarrow> real \<Rightarrow> real" where
  "legacyAm el sum1km sum05km = fmul (fdiv 1 10) (fadd (fadd (fmul 2 el) sum1km) sum05km)"

text \<open>
  The two branches that assign \<^verbatim>\<open>OrographyFactor\<close>. In the test \<^verbatim>\<open>towerHeight > 10\<close>,
  NaN and \<open>-Infinity\<close> compare false; \<open>Infinity\<close> compares true, and
  \<^verbatim>\<open>Math.exp(-Infinity)\<close> is 0.
\<close>

definition legacyFactor :: "(real \<Rightarrow> real) \<Rightarrow> jsnum \<Rightarrow> real \<Rightarrow> real" where
  "legacyFactor engine_exp towerHeight DeltaAc =
     (case towerHeight of
        Num h \<Rightarrow>
          if h > 10 then
            fadd 1 (fmul (fmul (fl 0.004) DeltaAc)
                         (Math_exp engine_exp (fmul (- fl 0.014) (fsub h 10))))
          else
            fadd 1 (fmul (fmul (fl 0.004) DeltaAc)
                         (Math_exp engine_exp (fmul (- fl 0.014) (fsub 10 10))))
      | PosInf \<Rightarrow> fadd 1 (fmul (fmul (fl 0.004) DeltaAc) 0)
      | _ \<Rightarrow> fadd 1 (fmul (fmul (fl 0.004) DeltaAc)
                        (Math_exp engine_exp (fmul (- fl 0.014) (fsub 10 10)))))"

text \<open>
  The value of \<^verbatim>\<open>OrographyFactor\<close> before it is rounded up, \<open>None\<close> when the function
  returns early because one of the nine elevations is not finite.
\<close>

definition OrographyFactor_raw :: "(real \<Rightarrow> real) \<Rightarrow> page \<Rightarrow> real option" where
  "OrographyFactor_raw engine_exp p =
     (case (elevation p, elevation_north_05km p, elevation_north_1km p,
            elevation_south_05km p, elevation_south_1km p,
            elevation_east_05km p, elevation_east_1km p,
            elevation_west_05km p, elevation_west_1km p) of
        (Some el, Some n05, Some n1, Some s05, Some s1, Some e05, Some e1, Some w05, Some w1) \<Rightarrow>
          (let sum1km = sumOfFour n1 s1 e1 w1;
               sum05km = sumOfFour n05 s05 e05 w05;
               towerHeight = height p;
               am = legacyAm el sum1km sum05km;
               DeltaAc = fsub el am
           in Some (legacyFactor engine_exp towerHeight DeltaAc))
      | _ \<Rightarrow> None)"

text \<open>\<^verbatim>\<open>Math.ceil(OrographyFactor * 100) / 100\<close>.\<close>

definition roundUpHundredths :: "real \<Rightarrow> real" where
  "roundUpHundredths x = fdiv (of_int \<lceil>fmul x 100\<rceil>) 100"

text \<open>The comment chosen for the rounded factor; the literal \<^verbatim>\<open>1.15\<close> is a double.\<close>

definition legacyComment :: "real \<Rightarrow> string" where
  "legacyComment OrographyFactor =
     (if OrographyFactor \<le> 1.0 then comment_flat
      else if OrographyFactor > fl 1.15 then comment_steep
      else if OrographyFactor > 1.0 \<and> OrographyFactor \<le> fl 1.15 then comment_not_flat
      else [])"

definition calculateTotalElevation :: "(real \<Rightarrow> real) \<Rightarrow> page \<Rightarrow> page" where
  "calculateTotalElevation engine_exp p =
     (case OrographyFactor_raw engine_exp p of
        None \<Rightarrow> p
      | Some raw \<Rightarrow>
          (let OrographyFactor = roundUpHundredths raw
           in p\<lparr>orography_factor_comment := legacyComment OrographyFactor,
                 orography_factor := Some (toFixed OrographyFactor 2)\<rparr>))"

text \<open>
  The eight ring elevations of the page, in the order of the sample points of
  \<^verbatim>\<open>computeOrographyFactorComplex\<close>: north, east, south, west, each at 500 m and 1000 m.
\<close>

definition ring_elevations :: "page \<Rightarrow> real option list" where
  "ring_elevations p =
     [elevation_north_05km p, elevation_north_1km p, elevation_east_05km p, elevation_east_1km p,
      elevation_south_05km p, elevation_south_1km p, elevation_west_05km p, elevation_west_1km p]"

section \<open>The formulas as the specification words them\<close>

definition spec_Am :: "real \<Rightarrow> real list \<Rightarrow> real" where
  "spec_Am ac ring = (2 * ac + sum_list ring) / 10"

definition spec_attenuation :: "real \<Rightarrow> real" where
  "spec_attenuation h = exp (- 0.014 * max 0 (max 0 h - 10))"

definition spec_raw_factor :: "real \<Rightarrow> real \<Rightarrow> real \<Rightarrow> real" where
  "spec_raw_factor ac am h = 1 + 0.004 * (ac - am) * spec_attenuation h"

datatype advisory = FLAT | TRANSITIONAL | STEEP

definition spec_classify :: "real \<Rightarrow> advisory" where
  "spec_classify factor =
     (if factor \<le> 1.0 then FLAT else if factor \<le> 1.15 then TRANSITIONAL else STEEP)"


text \<open>The answer of an elevation API that knows every point: the given numbers.\<close>

definition answering :: "real list \<Rightarrow> sample_point list \<Rightarrow> elevation_response" where
  "answering es pts = Json (Some (map (\<lambda>e. Some (Num e)) es))"

text \<open>Concrete inputs: services that answer with given elevations, a form, a page.\<close>

definition example_services :: "real list \<Rightarrow> services" where
  "example_services es =
     \<lparr>geocodeAddress = (\<lambda>a c. Inl NoGeocodingResults),
      lambertToWgs84 = (\<lambda>x y c. (0, 0)),
      wgs84ToLambert = (\<lambda>lo la c. (0, 0)),
      elevationApi = answering es\<rparr>"

definition example_form :: "jsnum \<Rightarrow> form" where
  "example_form z =
     \<lparr>inputType = lonlat, zRefEl = z, lonEl = Num 4, latEl = Num 51, addressEl = [],
      countryCodeEl = ''BE'', eastingEl = NaN, northingEl = NaN, lambertCrsEl = None\<rparr>"

definition example_page :: "real \<Rightarrow> real \<Rightarrow> jsnum \<Rightarrow> page" where
  "example_page el ring th =
     \<lparr>elevation = Some el, elevation_north_05km = Some ring, elevation_north_1km = Some ring,
      elevation_south_05km = Some ring, elevation_south_1km = Some ring,
      elevation_east_05km = Some ring, elevation_east_1km = Some ring,
      elevation_west_05km = Some ring, elevation_west_1km = Some ring,
      height = th, orography_factor_comment = [], orography_factor = None\<rparr>"

text \<open>An engine whose \<^verbatim>\<open>Math.exp\<close> is rounded correctly.\<close>

definition example_exp :: "real \<Rightarrow> real" where
  "example_exp x = fl (exp x)"

definition example_display :: display where
  "example_display =
     \<lparr>coordsLine1 = None, coordsLine2 = None, orographyFactorEl = None, AcEl = None,
      AmEl = None, warningEl = False, samplesTbody = [], statusEl = Blank\<rparr>"

section \<open>Arithmetic of the geodesy\<close>











lemma pole_lat: "lat (destinationPoint 90 lon0 d b) \<le> 90"
proof -
  have "arcsin (cos (d / 6371000)) \<le> pi / 2"
    by (intro arcsin_ubound) simp_all
  then have "arcsin (cos (d / 6371000)) * 180 \<le> 90 * pi" by simp
  then show ?thesis
    by (simp add: destinationPoint_def Let_def degToRad_def radToDeg_def pos_divide_le_eq)
qed

section \<open>The computation on a complete answer\<close>

lemma length_samplePoints: "length (samplePoints lat0 lon0) = 9"
  by (simp add: samplePoints_def bearings_def distances_def)

lemma foldl_some:
  "foldl (\<lambda>acc e. case e of Some v \<Rightarrow> acc + v | None \<Rightarrow> acc) a (map Some xs) = a + sum_list xs"
  by (induction xs arbitrary: a) (simp_all add: add.assoc)

lemma compute_answered:
  assumes "length ring = 8"
    and "api (samplePoints lat0 lon0) = Json (Some (map (\<lambda>e. Some (Num e)) (ac # ring)))"
  shows "computeOrographyFactorComplex api lon0 lat0 zr =
    Inr \<lparr>c0 = max 1 (1 + 0.004 * (ac - spec_Am ac ring)
                        * exp (- 0.014 * max 0 (max 0 (case zr of Some h \<Rightarrow> h | None \<Rightarrow> 10) - 10))),
         Ac = ac, Am = spec_Am ac ring, points = samplePoints lat0 lon0,
         elevations = map Some (ac # ring)\<rparr>"
  using assms
  by (simp add: computeOrographyFactorComplex_def fetchElevations_def length_samplePoints
      Let_def foldl_some list_ex_iff spec_Am_def max_def o_def)

lemma compute_floor:
  "computeOrographyFactorComplex api lon0 lat0 (Some h) = Inr r \<Longrightarrow>
     c0 r = max 1 (spec_raw_factor (Ac r) (Am r) h)"
  unfolding computeOrographyFactorComplex_def Let_def spec_raw_factor_def spec_attenuation_def
  by (auto split: sum.splits option.splits if_splits simp: max_def)

lemma compute_ge_one:
  "computeOrographyFactorComplex api lon0 lat0 zr = Inr r \<Longrightarrow> 1 \<le> c0 r"
  unfolding computeOrographyFactorComplex_def Let_def
  by (auto split: sum.splits option.splits if_splits)

lemma compute_negative:
  assumes "h < 0"
  shows "computeOrographyFactorComplex api lon0 lat0 (Some h)
         = computeOrographyFactorComplex api lon0 lat0 (Some 0)"
proof -
  have "max 0 h = max 0 (0::real)" using assms by simp
  then show ?thesis
    by (simp only: computeOrographyFactorComplex_def option.case)
qed

lemma compute_errors:
  assumes "api (samplePoints lat0 lon0) = Json (Some es)"
    and "length es \<noteq> 9 \<or> (\<exists>i<length es. finiteOrNull (es ! i) = None)"
  shows "computeOrographyFactorComplex api lon0 lat0 zr =
     Inl (if length es \<noteq> 9 then UnexpectedElevationResponse
          else if finiteOrNull (es ! 0) = None then NoSiteElevation
          else NoSampledElevations)"
proof (cases "length es = 9")
  case False
  then show ?thesis using assms(1)
    by (simp add: computeOrographyFactorComplex_def fetchElevations_def length_samplePoints)
next
  case True
  then obtain e0 rest where es: "es = e0 # rest" "length rest = 8"
    by (cases es) auto
  from assms(2) True obtain i where i: "i < 9" "finiteOrNull (es ! i) = None" by auto
  show ?thesis
  proof (cases "finiteOrNull e0")
    case None
    then show ?thesis using assms(1) es
      by (simp add: computeOrographyFactorComplex_def fetchElevations_def length_samplePoints)
  next
    case (Some a)
    have "i \<noteq> 0" using i(2) es(1) Some by (cases "i = 0") simp_all
    then obtain j where j: "i = Suc j" by (cases i) auto
    with i es have "j < length rest" "finiteOrNull (rest ! j) = None" by auto
    then have "None \<in> finiteOrNull ` set rest" by (metis image_eqI nth_mem)
    then show ?thesis using assms(1) es Some
      by (simp add: computeOrographyFactorComplex_def fetchElevations_def length_samplePoints
          list_ex_iff Let_def)
  qed
qed

lemma samplePoints_list:
  "samplePoints lat0 lon0 =
    [\<lparr>lat = lat0, lon = lon0, label = ''CENTER'', distanceM = 0, bearingDeg = None\<rparr>,
     \<lparr>lat = lat (destinationPoint lat0 lon0 500 0), lon = lon (destinationPoint lat0 lon0 500 0),
      label = ''N'', distanceM = 500, bearingDeg = Some 0\<rparr>,
     \<lparr>lat = lat (destinationPoint lat0 lon0 1000 0), lon = lon (destinationPoint lat0 lon0 1000 0),
      label = ''N'', distanceM = 1000, bearingDeg = Some 0\<rparr>,
     \<lparr>lat = lat (destinationPoint lat0 lon0 500 90), lon = lon (destinationPoint lat0 lon0 500 90),
      label = ''E'', distanceM = 500, bearingDeg = Some 90\<rparr>,
     \<lparr>lat = lat (destinationPoint lat0 lon0 1000 90), lon = lon (destinationPoint lat0 lon0 1000 90),
      label = ''E'', distanceM = 1000, bearingDeg = Some 90\<rparr>,
     \<lparr>lat = lat (destinationPoint lat0 lon0 500 180), lon = lon (destinationPoint lat0 lon0 500 180),
      label = ''S'', distanceM = 500, bearingDeg = Some 180\<rparr>,
     \<lparr>lat = lat (destinationPoint lat0 lon0 1000 180), lon = lon (destinationPoint lat0 lon0 1000 180),
      label = ''S'', distanceM = 1000, bearingDeg = Some 180\<rparr>,
     \<lparr>lat = lat (destinationPoint lat0 lon0 500 270), lon = lon (destinationPoint lat0 lon0 500 270),
      label = ''W'', distanceM = 500, bearingDeg = Some 270\<rparr>,
     \<lparr>lat = lat (destinationPoint lat0 lon0 1000 270), lon = lon (destinationPoint lat0 lon0 1000 270),
      label = ''W'', distanceM = 1000, bearingDeg = Some 270\<rparr>]"
  by (simp add: samplePoints_def bearings_def distances_def Let_def)

section \<open>The runner\<close>

lemma run_result:
  assumes "run f sv d = (None, d')"
  shows "\<exists>lon1 lat1 lab z r.
           computeOrographyFactorComplex (elevationApi sv) lon1 lat1 (Some z) = Inr r
        \<and> resolveInput f sv = Inr (lon1, lat1, lab)
        \<and> toNumber (zRefEl f) = Some z \<and> 0 \<le> z
        \<and> orographyFactorEl d' = Some (toFixed (c0 r) 3)
        \<and> AcEl d' = Some (toFixed (Ac r) 1) \<and> AmEl d' = Some (toFixed (Am r) 1)
        \<and> warningEl d' = (c0 r > 1.15)"
proof (cases "toNumber (zRefEl f)")
  case None
  then show ?thesis using assms by (simp add: run_def)
next
  case (Some z)
  note z = this
  show ?thesis
  proof (cases "z < 0")
    case True
    then show ?thesis using assms z by (simp add: run_def)
  next
    case False
    note nonneg = this
    show ?thesis
    proof (cases "resolveInput f sv")
      case (Inl e)
      then show ?thesis using assms z nonneg by (simp add: run_def)
    next
      case (Inr t)
      obtain lon1 lat1 lab where t: "resolveInput f sv = Inr (lon1, lat1, lab)"
        using Inr by (cases t) auto
      show ?thesis
      proof (cases "computeOrographyFactorComplex (elevationApi sv) lon1 lat1 (Some z)")
        case (Inl e)
        then show ?thesis using assms z nonneg t by (simp add: run_def Let_def)
      next
        case (Inr r)
        then have "orographyFactorEl d' = Some (toFixed (c0 r) 3)
           \<and> AcEl d' = Some (toFixed (Ac r) 1) \<and> AmEl d' = Some (toFixed (Am r) 1)
           \<and> warningEl d' = (c0 r > 1.15)"
          using assms z nonneg t by (auto simp: run_def Let_def)
        then show ?thesis using Inr z nonneg t by force
      qed
    qed
  qed
qed

lemma run_failed:
  "run f sv d = (Some e, d') \<Longrightarrow>
     orographyFactorEl d' = orographyFactorEl d \<and> AcEl d' = AcEl d \<and> AmEl d' = AmEl d
     \<and> warningEl d' = False \<and> samplesTbody d' = []"
  unfolding run_def Let_def
  by (auto split: option.splits sum.splits prod.splits if_splits)

lemma run_negative:
  "zRefEl f = Num h \<Longrightarrow> h < 0 \<Longrightarrow>
   run f sv d = (Some BadReferenceHeight,
                 d\<lparr>statusEl := Blank, warningEl := False, samplesTbody := []\<rparr>)"
  by (simp add: run_def)

section \<open>The original calculation\<close>

lemma comments_distinct:
  "comment_flat \<noteq> comment_steep" "comment_flat \<noteq> comment_not_flat"
  "comment_steep \<noteq> comment_not_flat"
  by (simp_all add: comment_flat_def comment_steep_def comment_not_flat_def)

lemma spec_attenuation_low: "h \<le> 10 \<Longrightarrow> spec_attenuation h = 1"
  by (simp add: spec_attenuation_def max_def)

section \<open>Double arithmetic: evaluation and error\<close>

lemma rne_close: "\<bar>of_int (rne y) - y\<bar> \<le> 1 / 2"
  unfolding rne_def Let_def by (auto simp: abs_le_iff)

lemma rne_eval:
  assumes "\<bar>y - of_int m\<bar> < 1 / 2 \<or> (\<bar>y - of_int m\<bar> = 1 / 2 \<and> even m)"
  shows "rne y = m"
proof -
  consider (a) "\<bar>y - of_int m\<bar> < 1 / 2" | (b) "y = of_int m + 1 / 2" "even m"
    | (c) "y = of_int m - 1 / 2" "even m"
    using assms by (auto simp: abs_if split: if_splits)
  then show ?thesis
  proof cases
    case a
    then have "\<lfloor>y\<rfloor> = m \<and> y - of_int m < 1 / 2
               \<or> \<lfloor>y\<rfloor> = m - 1 \<and> 1 / 2 < y - of_int (m - 1)"
      by (auto simp: abs_less_iff floor_eq_iff)
    then show ?thesis unfolding rne_def Let_def by auto
  next
    case b
    then have "\<lfloor>y\<rfloor> = m" by (simp add: floor_eq_iff)
    then show ?thesis using b unfolding rne_def Let_def by simp
  next
    case c
    then have "\<lfloor>y\<rfloor> = m - 1" by (simp add: floor_eq_iff)
    then show ?thesis using c unfolding rne_def Let_def by simp
  qed
qed

lemma floor_log2:
  assumes "2 powi n \<le> \<bar>x\<bar>" "\<bar>x\<bar> < 2 powi (n + 1)"
  shows "\<lfloor>log 2 \<bar>x\<bar>\<rfloor> = n"
proof -
  have "0 < (2::real) powi n" by simp
  then have pos: "0 < \<bar>x\<bar>" using assms(1) by linarith
  have "(2::real) powr of_int n = 2 powi n" "(2::real) powr (of_int n + 1) = 2 powi (n + 1)"
    using powr_real_of_int'[of "2::real" n] powr_real_of_int'[of "2::real" "n + 1"] by simp_all
  then show ?thesis using assms pos
    by (simp add: floor_log_eq_powr_iff)
qed

lemma fl_0: "fl 0 = 0"
  by (simp add: fl_def)

lemma fl_evalI:
  assumes "2 powi n \<le> \<bar>x\<bar>" "\<bar>x\<bar> < 2 powi (n + 1)" "- 1022 \<le> n"
    and "\<bar>x / 2 powi (n - 52) - of_int m\<bar> < 1 / 2
         \<or> (\<bar>x / 2 powi (n - 52) - of_int m\<bar> = 1 / 2 \<and> even m)"
    and "r = of_int m * 2 powi (n - 52)"
  shows "fl x = r"
proof -
  have "x \<noteq> 0"
  proof
    assume "x = 0"
    with assms(1) have "2 powi n \<le> (0::real)" by simp
    moreover have "0 < (2::real) powi n" by simp
    ultimately show False by linarith
  qed
  moreover have "expo x = n" using floor_log2[OF assms(1,2)] assms(3) by (simp add: expo_def)
  moreover have "rne (x / 2 powi (n - 52)) = m" using assms(4) by (rule rne_eval)
  ultimately show ?thesis using assms(5) by (simp add: fl_def)
qed

lemma Math_exp_0: "Math_exp engine_exp 0 = 1"
  by (simp add: Math_exp_def)

text \<open>The relative error of a rounding outside the subnormal range is at most \<open>2 ^ -53\<close>.\<close>

lemma fl_error:
  assumes "2 powi (- 1022) \<le> \<bar>x\<bar>"
  shows "\<bar>fl x - x\<bar> \<le> \<bar>x\<bar> / 2 ^ 53"
proof -
  define e where "e = \<lfloor>log 2 \<bar>x\<bar>\<rfloor>"
  define q where "q = (2::real) powi (e - 52)"
  have "0 < (2::real) powi (- 1022)" by (rule zero_less_power_int) simp
  then have pos: "0 < \<bar>x\<bar>" using assms by linarith
  then have x0: "x \<noteq> 0" by auto
  have "of_int e \<le> log 2 \<bar>x\<bar>" unfolding e_def by (rule of_int_floor_le)
  then have "2 powr of_int e \<le> \<bar>x\<bar>" using pos by (simp add: le_log_iff)
  then have le: "2 powi e \<le> \<bar>x\<bar>" using powr_real_of_int'[of "2::real" e] by simp
  have "(2::real) powr of_int (- 1022) \<le> \<bar>x\<bar>"
    using assms powr_real_of_int'[of "2::real" "- 1022"] by simp
  then have "of_int (- 1022) \<le> log 2 \<bar>x\<bar>" using pos by (simp add: le_log_iff)
  then have ge: "- 1022 \<le> e" unfolding e_def by (simp add: le_floor_iff)
  then have ex: "expo x = e" by (simp add: expo_def e_def)
  have qpos: "0 < q" unfolding q_def by simp
  have f: "fl x = of_int (rne (x / q)) * q" using x0 ex by (simp add: fl_def q_def)
  have "fl x - x = (of_int (rne (x / q)) - x / q) * q"
    using qpos f by (simp add: algebra_simps)
  then have "\<bar>fl x - x\<bar> = \<bar>of_int (rne (x / q)) - x / q\<bar> * q"
    using qpos by (simp add: abs_mult)
  also have "\<dots> \<le> 1 / 2 * q"
    using rne_close[of "x / q"] qpos by (intro mult_right_mono) simp_all
  also have "1 / 2 * q = 2 powi e / 2 ^ 53"
  proof -
    have "q = 2 powi e * 2 powi (- 52)"
      unfolding q_def using power_int_add[of "2::real" e "- 52"] by simp
    then show ?thesis by (simp add: power_int_minus field_simps)
  qed
  also have "\<dots> \<le> \<bar>x\<bar> / 2 ^ 53" using le by (simp add: divide_right_mono)
  finally show ?thesis .
qed

lemma tiny_le_hundredth: "2 powi (- 1022) \<le> (1 / 100 :: real)"
proof -
  have "(2::real) powi (- 1022) \<le> 2 powi (- 7)"
    by (rule power_int_increasing) simp_all
  also have "\<dots> \<le> 1 / 100" by simp
  finally show ?thesis .
qed

text \<open>The double next to \<open>k / 100\<close>, for an integer \<open>k\<close>.\<close>

lemma fl_error_bounds:
  assumes "2 powi (- 1022) \<le> \<bar>x\<bar>"
  shows "x - \<bar>x\<bar> / 2 ^ 53 \<le> fl x" and "fl x \<le> x + \<bar>x\<bar> / 2 ^ 53"
proof -
  define B where "B = \<bar>x\<bar> / 2 ^ 53"
  have "\<bar>fl x - x\<bar> \<le> B" unfolding B_def using assms by (rule fl_error)
  then have "x - B \<le> fl x" "fl x \<le> x + B" by linarith+
  then show "x - \<bar>x\<bar> / 2 ^ 53 \<le> fl x" and "fl x \<le> x + \<bar>x\<bar> / 2 ^ 53"
    unfolding B_def .
qed

lemma fl_hundredths_pos:
  assumes "1 \<le> k"
  shows "of_int k / 100 * (1 - 1 / 2 ^ 53) \<le> fl (of_int k / 100)"
    and "fl (of_int k / 100) \<le> of_int k / 100 * (1 + 1 / 2 ^ 53)"
proof -
  define x :: real where "x = of_int k / 100"
  have k: "(1::real) \<le> of_int k" using assms by simp
  then have a: "\<bar>x\<bar> = x" and x: "1 / 100 \<le> x" unfolding x_def by simp_all
  have "2 powi (- 1022) \<le> \<bar>x\<bar>"
    using tiny_le_hundredth x unfolding a by linarith
  from fl_error_bounds[OF this] have "x - x / 2 ^ 53 \<le> fl x" "fl x \<le> x + x / 2 ^ 53"
    unfolding a .
  moreover have "x * (1 - 1 / 2 ^ 53) = x - x / 2 ^ 53"
    by (simp add: right_diff_distrib)
  moreover have "x * (1 + 1 / 2 ^ 53) = x + x / 2 ^ 53"
    by (simp add: distrib_left)
  ultimately have "x * (1 - 1 / 2 ^ 53) \<le> fl x" "fl x \<le> x * (1 + 1 / 2 ^ 53)"
    by simp_all
  then show "of_int k / 100 * (1 - 1 / 2 ^ 53) \<le> fl (of_int k / 100)"
    and "fl (of_int k / 100) \<le> of_int k / 100 * (1 + 1 / 2 ^ 53)"
    unfolding x_def .
qed

lemma fl_hundredths_neg:
  assumes "k \<le> - 1"
  shows "of_int k / 100 * (1 + 1 / 2 ^ 53) \<le> fl (of_int k / 100)"
    and "fl (of_int k / 100) \<le> of_int k / 100 * (1 - 1 / 2 ^ 53)"
proof -
  define x :: real where "x = of_int k / 100"
  have k: "of_int k \<le> (- 1::real)" using assms by linarith
  then have a: "\<bar>x\<bar> = - x" and x: "1 / 100 \<le> - x" unfolding x_def by simp_all
  have "2 powi (- 1022) \<le> \<bar>x\<bar>"
    using tiny_le_hundredth x unfolding a by linarith
  from fl_error_bounds[OF this] have "x - (- x) / 2 ^ 53 \<le> fl x" "fl x \<le> x + (- x) / 2 ^ 53"
    unfolding a .
  moreover have "x * (1 - 1 / 2 ^ 53) = x + (- x) / 2 ^ 53"
    by (simp add: right_diff_distrib)
  moreover have "x * (1 + 1 / 2 ^ 53) = x - (- x) / 2 ^ 53"
    by (simp add: distrib_left)
  ultimately have "x * (1 + 1 / 2 ^ 53) \<le> fl x" "fl x \<le> x * (1 - 1 / 2 ^ 53)"
    by simp_all
  then show "of_int k / 100 * (1 + 1 / 2 ^ 53) \<le> fl (of_int k / 100)"
    and "fl (of_int k / 100) \<le> of_int k / 100 * (1 - 1 / 2 ^ 53)"
    unfolding x_def .
qed

text \<open>The error of a rounding in the subnormal range is at most half the smallest step.\<close>

lemma fl_subnormal_error:
  assumes "x \<noteq> 0" "\<bar>x\<bar> < 2 powi (- 1022)"
  shows "\<bar>fl x - x\<bar> \<le> 2 powi (- 1022) / 2 ^ 53"
proof -
  define q where "q = (2::real) powi (- 1022 - 52)"
  have pos: "0 < \<bar>x\<bar>" using assms(1) by simp
  have "\<bar>x\<bar> < 2 powr of_int (- 1022)"
    using assms(2) powr_real_of_int'[of "2::real" "- 1022"] by simp
  then have "log 2 \<bar>x\<bar> < of_int (- 1022)" using pos by (simp add: log_less_iff)
  then have "\<lfloor>log 2 \<bar>x\<bar>\<rfloor> < - 1022" by (simp add: floor_less_iff)
  then have ex: "expo x = - 1022" by (simp add: expo_def)
  have qpos: "0 < q" unfolding q_def by simp
  have f: "fl x = of_int (rne (x / q)) * q" using assms(1) ex by (simp add: fl_def q_def)
  have "fl x - x = (of_int (rne (x / q)) - x / q) * q"
    using qpos f by (simp add: algebra_simps)
  then have "\<bar>fl x - x\<bar> = \<bar>of_int (rne (x / q)) - x / q\<bar> * q"
    using qpos by (simp add: abs_mult)
  also have "\<dots> \<le> 1 / 2 * q"
    using rne_close[of "x / q"] qpos by (intro mult_right_mono) simp_all
  also have "1 / 2 * q = 2 powi (- 1022) / 2 ^ 53"
  proof -
    have "q = 2 powi (- 1022) * 2 powi (- 52)"
      unfolding q_def using power_int_add[of "2::real" "- 1022" "- 52"] by simp
    then show ?thesis by (simp add: power_int_minus field_simps)
  qed
  finally show ?thesis .
qed

text \<open>The error of a rounding of a number of magnitude at most \<open>B\<close>.\<close>

lemma fl_abs_error:
  assumes "\<bar>x\<bar> \<le> B" "2 powi (- 1022) \<le> B"
  shows "\<bar>fl x - x\<bar> \<le> B / 2 ^ 53"
proof -
  have t: "0 < (2::real) powi (- 1022)" by simp
  consider (z) "x = 0" | (s) "x \<noteq> 0" "\<bar>x\<bar> < 2 powi (- 1022)" | (n) "2 powi (- 1022) \<le> \<bar>x\<bar>"
    by linarith
  then show ?thesis
  proof cases
    case z
    have "0 \<le> B / 2 ^ 53" using assms(2) t by simp
    then show ?thesis using z by (simp add: fl_0)
  next
    case s
    have "2 powi (- 1022) / 2 ^ 53 \<le> B / 2 ^ 53"
      using assms(2) by (rule divide_right_mono) simp
    with fl_subnormal_error[OF s] show ?thesis by linarith
  next
    case n
    have "\<bar>x\<bar> / 2 ^ 53 \<le> B / 2 ^ 53"
      using assms(1) by (rule divide_right_mono) simp
    with fl_error[OF n] show ?thesis by linarith
  qed
qed

lemma tiny_le_small: "2 powi (- 1022) \<le> (1 / 128 :: real)"
proof -
  have "(2::real) powi (- 1022) \<le> 2 powi (- 7)"
    by (rule power_int_increasing) simp_all
  also have "\<dots> = 1 / 128" by simp
  finally show ?thesis .
qed

text \<open>Rounding a number that is near \<open>y\<close>.\<close>

lemma fl_near:
  assumes "\<bar>x - y\<bar> \<le> d" "\<bar>y\<bar> + d \<le> B" "1 / 128 \<le> B"
  shows "\<bar>fl x - y\<bar> \<le> d + B / 2 ^ 53"
proof -
  have "\<bar>x\<bar> \<le> B" using assms(1,2) by linarith
  moreover have "2 powi (- 1022) \<le> B" using tiny_le_small assms(3) by linarith
  ultimately have "\<bar>fl x - x\<bar> \<le> B / 2 ^ 53" by (rule fl_abs_error)
  then show ?thesis using assms(1) by linarith
qed

lemma fl_near17:
  assumes "\<bar>x - y\<bar> \<le> d" "\<bar>y\<bar> + d \<le> 131072"
  shows "\<bar>fl x - y\<bar> \<le> d + 1 / 2 ^ 36"
  using fl_near[OF assms, of ] by simp

lemma mult_error:
  fixes a b a' b' :: real
  assumes "\<bar>a - a'\<bar> \<le> da" "\<bar>b - b'\<bar> \<le> db" "\<bar>a'\<bar> \<le> A" "\<bar>b\<bar> \<le> Bb"
  shows "\<bar>a * b - a' * b'\<bar> \<le> da * Bb + A * db"
proof -
  have "a * b - a' * b' = (a - a') * b + a' * (b - b')" by (simp add: algebra_simps)
  then have "\<bar>a * b - a' * b'\<bar> \<le> \<bar>(a - a') * b\<bar> + \<bar>a' * (b - b')\<bar>"
    by (simp add: abs_triangle_ineq)
  also have "\<dots> = \<bar>a - a'\<bar> * \<bar>b\<bar> + \<bar>a'\<bar> * \<bar>b - b'\<bar>" by (simp add: abs_mult)
  also have "\<dots> \<le> da * Bb + A * db"
  proof -
    have "0 \<le> da" "0 \<le> A" using assms(1,3) by linarith+
    then have "\<bar>a - a'\<bar> * \<bar>b\<bar> \<le> da * Bb" "\<bar>a'\<bar> * \<bar>b - b'\<bar> \<le> A * db"
      using assms by (simp_all add: mult_mono)
    then show ?thesis by linarith
  qed
  finally show ?thesis .
qed

section \<open>The original calculation: rounding up and the comment\<close>


lemma fl_115: "fl 1.15 = 2589569785738035 / 2 ^ 51"
  by (rule fl_evalI[of 0 _ 5179139571476070]) simp_all

lemma fl_hundredths_nonpos: "k \<le> 0 \<Longrightarrow> fl (of_int k / 100) \<le> 0"
proof (cases "k = 0")
  case True
  then show ?thesis by (simp add: fl_0)
next
  case False
  assume "k \<le> 0"
  with False have k: "k \<le> - 1" by simp
  then have "real_of_int k / 100 * (1 - 1 / 2 ^ 53) \<le> 0"
    by (simp add: mult_le_0_iff)
  with fl_hundredths_neg(2)[OF k] show ?thesis by linarith
qed




lemma toFixed_hundredths:
  assumes "\<bar>k\<bar> < 2 ^ 52"
  shows "toFixed (fdiv (of_int k) 100) 2 = of_int k / 100"
proof -
  define y where "y = fl (real_of_int k / 100)"
  have kb: "real_of_int k < 2 ^ 52" "- (2 ^ 52) < real_of_int k"
    using assms by (simp_all add: abs_less_iff)
  consider (z) "k = 0" | (p) "1 \<le> k" | (n) "k \<le> - 1" by linarith
  then have "toFixed y 2 = of_int k / 100"
  proof cases
    case z
    then show ?thesis by (simp add: y_def fl_0 toFixed_def)
  next
    case p
    have lo: "real_of_int k / 100 * (1 - 1 / 2 ^ 53) \<le> y"
      and hi: "y \<le> real_of_int k / 100 * (1 + 1 / 2 ^ 53)"
      unfolding y_def using fl_hundredths_pos[OF p] by simp_all
    have k1: "1 \<le> real_of_int k" using p by simp
    have "0 < y" using lo k1 by (simp add: field_simps)
    moreover have "\<lfloor>y * 10 ^ 2 + 1 / 2\<rfloor> = k"
      using lo hi kb k1 by (simp add: floor_eq_iff field_simps) 
    ultimately show ?thesis by (simp add: toFixed_def)
  next
    case n
    have lo: "real_of_int k / 100 * (1 + 1 / 2 ^ 53) \<le> y"
      and hi: "y \<le> real_of_int k / 100 * (1 - 1 / 2 ^ 53)"
      unfolding y_def using fl_hundredths_neg[OF n] by simp_all
    have k1: "real_of_int k \<le> - 1" using n by linarith
    have "y < 0" using hi k1 by (simp add: field_simps)
    moreover have "\<lfloor>- y * 10 ^ 2 + 1 / 2\<rfloor> = - k"
      using lo hi kb k1 by (simp add: floor_eq_iff field_simps)
    ultimately show ?thesis by (simp add: toFixed_def)
  qed
  then show ?thesis by (simp add: y_def fdiv_def)
qed

lemma toFixed_below_one:
  assumes "k \<le> 99"
  shows "toFixed (fdiv (of_int k) 100) 2 < 1"
proof -
  define y where "y = fl (real_of_int k / 100)"
  have "toFixed y 2 < 1"
  proof (cases "y < 0")
    case True
    define F where "F = \<lfloor>- y * 10 ^ 2 + 1 / 2\<rfloor>"
    have "0 \<le> F" unfolding F_def using True by simp
    moreover have "toFixed y 2 = - (real_of_int F / 10 ^ 2)"
      unfolding F_def toFixed_def using True by simp
    ultimately show ?thesis by simp
  next
    case False
    have "y * 10 ^ 2 + 1 / 2 < 100"
    proof (cases "k \<le> 0")
      case True
      then show ?thesis using fl_hundredths_nonpos[of k] by (simp add: y_def)
    next
      case False
      then have p: "1 \<le> k" by simp
      have "real_of_int k \<le> 99" using assms by simp
      then have "real_of_int k / 100 * (1 + 1 / 2 ^ 53) < 995 / 1000" by simp
      then show ?thesis using fl_hundredths_pos(2)[OF p] by (simp add: y_def)
    qed
    then have "\<lfloor>y * 10 ^ 2 + 1 / 2\<rfloor> < 100" by (simp add: floor_less_iff)
    then have "real_of_int \<lfloor>y * 10 ^ 2 + 1 / 2\<rfloor> \<le> 99" by linarith
    then show ?thesis using False by (simp add: toFixed_def)
  qed
  then show ?thesis by (simp add: y_def fdiv_def)
qed

lemma calculateTotalElevation_written:
  "OrographyFactor_raw engine_exp p = Some raw \<Longrightarrow>
   calculateTotalElevation engine_exp p =
     p\<lparr>orography_factor_comment := legacyComment (roundUpHundredths raw),
       orography_factor := Some (toFixed (roundUpHundredths raw) 2)\<rparr>"
  by (simp add: calculateTotalElevation_def Let_def)

lemma OrographyFactor_raw_complete:
  assumes "elevation p = Some ac" "ring_elevations p = map Some ring"
  shows "\<exists>raw. OrographyFactor_raw engine_exp p = Some raw"
proof -
  from assms(2) obtain n05 n1 e05 e1 s05 s1 w05 w1 where
    "elevation_north_05km p = Some n05" "elevation_north_1km p = Some n1"
    "elevation_east_05km p = Some e05" "elevation_east_1km p = Some e1"
    "elevation_south_05km p = Some s05" "elevation_south_1km p = Some s1"
    "elevation_west_05km p = Some w05" "elevation_west_1km p = Some w1"
    by (auto simp: ring_elevations_def Cons_eq_map_conv)
  then show ?thesis using assms(1) by (simp add: OrographyFactor_raw_def)
qed

lemma legacyFactor_low:
  "h \<le> 10 \<Longrightarrow> legacyFactor engine_exp (Num h) DeltaAc = legacyFactor engine_exp NaN DeltaAc"
  by (simp add: legacyFactor_def)

lemma OrographyFactor_raw_nan:
  assumes "height p = NaN" "h \<le> 10"
  shows "OrographyFactor_raw engine_exp (p\<lparr>height := Num h\<rparr>) = OrographyFactor_raw engine_exp p"
  using assms by (simp add: OrographyFactor_raw_def legacyFactor_low split: option.splits)

lemma attenuation_at_10: "Math_exp engine_exp (fmul (- fl 0.014) (fsub 10 10)) = 1"
  by (simp add: fsub_def fmul_def fl_0 Math_exp_def)

lemma OrographyFactor_raw_value:
  assumes "elevation p = Some ac" "ring_elevations p = map Some ring"
  shows "OrographyFactor_raw engine_exp p =
     Some (legacyFactor engine_exp (height p)
            (fsub ac (legacyAm ac (sumOfFour (ring ! 1) (ring ! 5) (ring ! 3) (ring ! 7))
                                  (sumOfFour (ring ! 0) (ring ! 4) (ring ! 2) (ring ! 6)))))"
proof -
  from assms(2) obtain n05 n1 e05 e1 s05 s1 w05 w1 where
    r: "ring = [n05, n1, e05, e1, s05, s1, w05, w1]"
    and "elevation_north_05km p = Some n05" "elevation_north_1km p = Some n1"
    "elevation_east_05km p = Some e05" "elevation_east_1km p = Some e1"
    "elevation_south_05km p = Some s05" "elevation_south_1km p = Some s1"
    "elevation_west_05km p = Some w05" "elevation_west_1km p = Some w1"
    by (auto simp: ring_elevations_def Cons_eq_map_conv)
  then show ?thesis using assms(1) by (simp add: OrographyFactor_raw_def r)
qed

lemma legacyFactor_nan:
  "legacyFactor engine_exp NaN DeltaAc = fadd 1 (fmul (fmul (fl 0.004) DeltaAc) 1)"
  unfolding legacyFactor_def attenuation_at_10 by simp

lemma legacyFactor_at_most_10:
  "h \<le> 10 \<Longrightarrow>
     legacyFactor engine_exp (Num h) DeltaAc = fadd 1 (fmul (fmul (fl 0.004) DeltaAc) 1)"
  unfolding legacyFactor_def attenuation_at_10 by simp

section \<open>The original calculation on example pages\<close>

text \<open>The roundings of the examples, each checked against its definition.\<close>

lemma dbl_1: "fadd 100 100 = 200"
  unfolding fadd_def by (rule fl_evalI[of "7" _ "7036874417766400"]) simp_all

lemma dbl_2: "fadd 200 100 = 300"
  unfolding fadd_def by (rule fl_evalI[of "8" _ "5277655813324800"]) simp_all

lemma dbl_3: "fadd 300 100 = 400"
  unfolding fadd_def by (rule fl_evalI[of "8" _ "7036874417766400"]) simp_all

lemma dbl_7: "fdiv 1 10 = 3602879701896397 / 2 ^ 55"
  unfolding fdiv_def by (rule fl_evalI[of "- 4" _ "7205759403792794"]) simp_all

lemma dbl_8: "fmul 2 200 = 400"
  unfolding fmul_def by (rule fl_evalI[of "8" _ "7036874417766400"]) simp_all

lemma dbl_9: "fadd 400 400 = 800"
  unfolding fadd_def by (rule fl_evalI[of "9" _ "7036874417766400"]) simp_all

lemma dbl_10: "fadd 800 400 = 1200"
  unfolding fadd_def by (rule fl_evalI[of "10" _ "5277655813324800"]) simp_all

lemma dbl_11: "fmul (3602879701896397 / 2 ^ 55) 1200 = 120"
  unfolding fmul_def by (rule fl_evalI[of "6" _ "8444249301319680"]) simp_all

lemma dbl_12: "fsub 200 120 = 80"
  unfolding fsub_def by (rule fl_evalI[of "6" _ "5629499534213120"]) simp_all

lemma dbl_13: "fl 0.004 = 1152921504606847 / 2 ^ 58"
  by (rule fl_evalI[of "- 8" _ "4611686018427388"]) simp_all

lemma dbl_14: "fmul (1152921504606847 / 2 ^ 58) 80 = 5764607523034235 / 2 ^ 54"
  unfolding fmul_def by (rule fl_evalI[of "- 2" _ "5764607523034235"]) simp_all

lemma dbl_15: "fsub 10 10 = 0"
  by (simp add: fsub_def fl_0)

lemma dbl_16: "fl 0.014 = 8070450532247929 / 2 ^ 59"
  by (rule fl_evalI[of "- 7" _ "8070450532247929"]) simp_all

lemma dbl_17: "fmul (- (8070450532247929 / 2 ^ 59)) 0 = 0"
  by (simp add: fmul_def fl_0)

lemma dbl_18: "fmul (5764607523034235 / 2 ^ 54) 1 = 5764607523034235 / 2 ^ 54"
  unfolding fmul_def by (rule fl_evalI[of "- 2" _ "5764607523034235"]) simp_all

lemma dbl_19: "fadd 1 (5764607523034235 / 2 ^ 54) = 5944751508129055 / 2 ^ 52"
  unfolding fadd_def by (rule fl_evalI[of "0" _ "5944751508129055"]) simp_all

lemma dbl_20: "fmul (5944751508129055 / 2 ^ 52) 100 = 132"
  unfolding fmul_def by (rule fl_evalI[of "7" _ "4644337115725824"]) simp_all

lemma dbl_21: "fdiv 132 100 = 5944751508129055 / 2 ^ 52"
  unfolding fdiv_def by (rule fl_evalI[of "0" _ "5944751508129055"]) simp_all

lemma dbl_22: "fl 1.15 = 2589569785738035 / 2 ^ 51"
  by (rule fl_evalI[of "0" _ "5179139571476070"]) simp_all

lemma dbl_30: "fmul 2 0 = 0"
  by (simp add: fmul_def fl_0)

lemma dbl_31: "fadd 0 400 = 400"
  unfolding fadd_def by (rule fl_evalI[of "8" _ "7036874417766400"]) simp_all

lemma dbl_33: "fmul (3602879701896397 / 2 ^ 55) 800 = 80"
  unfolding fmul_def by (rule fl_evalI[of "6" _ "5629499534213120"]) simp_all

lemma dbl_34: "fsub 0 80 = - 80"
  unfolding fsub_def by (rule fl_evalI[of "6" _ "- 5629499534213120"]) simp_all

lemma dbl_36: "fmul (1152921504606847 / 2 ^ 58) (- 80) = - (5764607523034235 / 2 ^ 54)"
  unfolding fmul_def by (rule fl_evalI[of "- 2" _ "- 5764607523034235"]) simp_all

lemma dbl_40: "fmul (- (5764607523034235 / 2 ^ 54)) 1 = - (5764607523034235 / 2 ^ 54)"
  unfolding fmul_def by (rule fl_evalI[of "- 2" _ "- 5764607523034235"]) simp_all

lemma dbl_41: "fadd 1 (- (5764607523034235 / 2 ^ 54)) = 3062447746611937 / 2 ^ 52"
  unfolding fadd_def by (rule fl_evalI[of "- 1" _ "6124895493223874"]) simp_all

lemma dbl_42: "fmul (3062447746611937 / 2 ^ 52) 100 = 68"
  unfolding fmul_def by (rule fl_evalI[of "6" _ "4785074604081152"]) simp_all

lemma dbl_43: "fdiv 68 100 = 6124895493223875 / 2 ^ 53"
  unfolding fdiv_def by (rule fl_evalI[of "- 1" _ "6124895493223875"]) simp_all











lemma dbl_67: "fadd 225 225 = 450"
  unfolding fadd_def by (rule fl_evalI[of "8" _ "7916483719987200"]) simp_all

lemma dbl_68: "fadd 450 225 = 675"
  unfolding fadd_def by (rule fl_evalI[of "9" _ "5937362789990400"]) simp_all

lemma dbl_69: "fadd 675 225 = 900"
  unfolding fadd_def by (rule fl_evalI[of "9" _ "7916483719987200"]) simp_all

lemma dbl_75: "fadd 0 900 = 900"
  unfolding fadd_def by (rule fl_evalI[of "9" _ "7916483719987200"]) simp_all

lemma dbl_76: "fadd 900 900 = 1800"
  unfolding fadd_def by (rule fl_evalI[of "10" _ "7916483719987200"]) simp_all

lemma dbl_77: "fmul (3602879701896397 / 2 ^ 55) 1800 = 180"
  unfolding fmul_def by (rule fl_evalI[of "7" _ "6333186975989760"]) simp_all

lemma dbl_78: "fsub 0 180 = - 180"
  unfolding fsub_def by (rule fl_evalI[of "7" _ "- 6333186975989760"]) simp_all

lemma dbl_80: "fmul (1152921504606847 / 2 ^ 58) (- 180) = - (3242591731706757 / 2 ^ 52)"
  unfolding fmul_def by (rule fl_evalI[of "- 1" _ "- 6485183463413514"]) simp_all

lemma dbl_84: "fmul (- (3242591731706757 / 2 ^ 52)) 1 = - (3242591731706757 / 2 ^ 52)"
  unfolding fmul_def by (rule fl_evalI[of "- 1" _ "- 6485183463413514"]) simp_all

lemma dbl_85: "fadd 1 (- (3242591731706757 / 2 ^ 52)) = 1261007895663739 / 2 ^ 52"
  unfolding fadd_def by (rule fl_evalI[of "- 2" _ "5044031582654956"]) simp_all

lemma dbl_86: "fmul (1261007895663739 / 2 ^ 52) 100 = 7881299347898369 / 2 ^ 48"
  unfolding fmul_def by (rule fl_evalI[of "4" _ "7881299347898369"]) simp_all

lemma dbl_87: "fdiv 29 100 = 5224175567749775 / 2 ^ 54"
  unfolding fdiv_def by (rule fl_evalI[of "- 2" _ "5224175567749775"]) simp_all

lemma ceil_steep: "\<lceil>(132) :: real\<rceil> = 132"
  by simp

lemma raw_steep:
  "OrographyFactor_raw engine_exp (example_page 200 100 (Num 10)) = Some (5944751508129055 / 2 ^ 52)"
proof -
  have "OrographyFactor_raw engine_exp (example_page 200 100 (Num 10)) =
      Some (legacyFactor engine_exp (Num 10)
             (fsub 200 (legacyAm 200 (sumOfFour 100 100 100 100)
                                      (sumOfFour 100 100 100 100))))"
    by (simp add: OrographyFactor_raw_def example_page_def)
  also have "\<dots> = Some (5944751508129055 / 2 ^ 52)"
    by (simp only: sumOfFour_def legacyAm_def legacyFactor_def jsnum.case less_irrefl if_False
        Math_exp_0 dbl_1 dbl_2 dbl_3 dbl_7 dbl_8 dbl_9 dbl_10 dbl_11 dbl_12 dbl_13 dbl_14 dbl_15 dbl_16 dbl_17 dbl_18 dbl_19 dbl_20 dbl_21 dbl_22)
  finally show ?thesis .
qed

lemma shown_steep:
  "legacyComment (roundUpHundredths (5944751508129055 / 2 ^ 52)) = comment_steep"
  "toFixed (roundUpHundredths (5944751508129055 / 2 ^ 52)) 2 = 132 / 100"
proof -
  have ru: "roundUpHundredths (5944751508129055 / 2 ^ 52) = 5944751508129055 / 2 ^ 52"
    by (simp only: roundUpHundredths_def dbl_20 ceil_steep of_int_numeral dbl_21)
  show "legacyComment (roundUpHundredths (5944751508129055 / 2 ^ 52)) = comment_steep"
    unfolding ru by (simp only: legacyComment_def fl_115) simp
  show "toFixed (roundUpHundredths (5944751508129055 / 2 ^ 52)) 2 = 132 / 100"
    unfolding ru by (simp add: toFixed_def)
qed

lemma page_steep:
  "calculateTotalElevation engine_exp (example_page 200 100 (Num 10)) =
     (example_page 200 100 (Num 10))\<lparr>orography_factor_comment := comment_steep, orography_factor := Some (132 / 100)\<rparr>"
  by (simp only: calculateTotalElevation_written[OF raw_steep] shown_steep)

lemma ceil_low: "\<lceil>(68) :: real\<rceil> = 68"
  by simp

lemma raw_low:
  "OrographyFactor_raw engine_exp (example_page 0 100 (Num 10)) = Some (3062447746611937 / 2 ^ 52)"
proof -
  have "OrographyFactor_raw engine_exp (example_page 0 100 (Num 10)) =
      Some (legacyFactor engine_exp (Num 10)
             (fsub 0 (legacyAm 0 (sumOfFour 100 100 100 100)
                                      (sumOfFour 100 100 100 100))))"
    by (simp add: OrographyFactor_raw_def example_page_def)
  also have "\<dots> = Some (3062447746611937 / 2 ^ 52)"
    by (simp only: sumOfFour_def legacyAm_def legacyFactor_def jsnum.case less_irrefl if_False
        Math_exp_0 dbl_1 dbl_2 dbl_3 dbl_7 dbl_30 dbl_31 dbl_9 dbl_33 dbl_34 dbl_13 dbl_36 dbl_15 dbl_16 dbl_17 dbl_40 dbl_41 dbl_42 dbl_43 dbl_22)
  finally show ?thesis .
qed

lemma shown_low:
  "legacyComment (roundUpHundredths (3062447746611937 / 2 ^ 52)) = comment_flat"
  "toFixed (roundUpHundredths (3062447746611937 / 2 ^ 52)) 2 = 68 / 100"
proof -
  have ru: "roundUpHundredths (3062447746611937 / 2 ^ 52) = 6124895493223875 / 2 ^ 53"
    by (simp only: roundUpHundredths_def dbl_42 ceil_low of_int_numeral dbl_43)
  show "legacyComment (roundUpHundredths (3062447746611937 / 2 ^ 52)) = comment_flat"
    unfolding ru by (simp only: legacyComment_def fl_115) simp
  show "toFixed (roundUpHundredths (3062447746611937 / 2 ^ 52)) 2 = 68 / 100"
    unfolding ru by (simp add: toFixed_def)
qed

lemma page_low:
  "calculateTotalElevation engine_exp (example_page 0 100 (Num 10)) =
     (example_page 0 100 (Num 10))\<lparr>orography_factor_comment := comment_flat, orography_factor := Some (68 / 100)\<rparr>"
  by (simp only: calculateTotalElevation_written[OF raw_low] shown_low)





lemma ceil_ceil: "\<lceil>(7881299347898369 / 2 ^ 48) :: real\<rceil> = 29"
  by simp

lemma raw_ceil:
  "OrographyFactor_raw engine_exp (example_page 0 225 (Num 10)) = Some (1261007895663739 / 2 ^ 52)"
proof -
  have "OrographyFactor_raw engine_exp (example_page 0 225 (Num 10)) =
      Some (legacyFactor engine_exp (Num 10)
             (fsub 0 (legacyAm 0 (sumOfFour 225 225 225 225)
                                      (sumOfFour 225 225 225 225))))"
    by (simp add: OrographyFactor_raw_def example_page_def)
  also have "\<dots> = Some (1261007895663739 / 2 ^ 52)"
    by (simp only: sumOfFour_def legacyAm_def legacyFactor_def jsnum.case less_irrefl if_False
        Math_exp_0 dbl_67 dbl_68 dbl_69 dbl_7 dbl_30 dbl_75 dbl_76 dbl_77 dbl_78 dbl_13 dbl_80 dbl_15 dbl_16 dbl_17 dbl_84 dbl_85 dbl_86 dbl_87 dbl_22)
  finally show ?thesis .
qed

lemma shown_ceil:
  "legacyComment (roundUpHundredths (1261007895663739 / 2 ^ 52)) = comment_flat"
  "toFixed (roundUpHundredths (1261007895663739 / 2 ^ 52)) 2 = 29 / 100"
proof -
  have ru: "roundUpHundredths (1261007895663739 / 2 ^ 52) = 5224175567749775 / 2 ^ 54"
    by (simp only: roundUpHundredths_def dbl_86 ceil_ceil of_int_numeral dbl_87)
  show "legacyComment (roundUpHundredths (1261007895663739 / 2 ^ 52)) = comment_flat"
    unfolding ru by (simp only: legacyComment_def fl_115) simp
  show "toFixed (roundUpHundredths (1261007895663739 / 2 ^ 52)) 2 = 29 / 100"
    unfolding ru by (simp add: toFixed_def)
qed

lemma page_ceil:
  "calculateTotalElevation engine_exp (example_page 0 225 (Num 10)) =
     (example_page 0 225 (Num 10))\<lparr>orography_factor_comment := comment_flat, orography_factor := Some (29 / 100)\<rparr>"
  by (simp only: calculateTotalElevation_written[OF raw_ceil] shown_ceil)

section \<open>The original calculation against the formula\<close>

text \<open>
  The rounding errors of \<^verbatim>\<open>calculateTotalElevation\<close>, step by step, for elevations of
  at most 10000 m in magnitude.
\<close>

lemma sumOfFour_error:
  assumes "\<bar>a\<bar> \<le> 10000" "\<bar>b\<bar> \<le> 10000" "\<bar>c\<bar> \<le> 10000" "\<bar>d\<bar> \<le> 10000"
  shows "\<bar>sumOfFour a b c d - (a + b + c + d)\<bar> \<le> 3 / 2 ^ 36"
proof -
  have p1: "\<bar>(a + b) - (a + b)\<bar> \<le> 0" by simp
  have q1: "\<bar>a + b\<bar> + 0 \<le> 131072" using assms by linarith
  have 1: "\<bar>fadd a b - (a + b)\<bar> \<le> 1 / 2 ^ 36"
    unfolding fadd_def using fl_near17[OF p1 q1] by simp
  have p2: "\<bar>(fadd a b + c) - (a + b + c)\<bar> \<le> 1 / 2 ^ 36" using 1 by linarith
  have q2: "\<bar>a + b + c\<bar> + 1 / 2 ^ 36 \<le> 131072" using assms by (simp; linarith?)
  have 2: "\<bar>fadd (fadd a b) c - (a + b + c)\<bar> \<le> 2 / 2 ^ 36"
    using fl_near17[OF p2 q2] by (simp add: fadd_def)
  have p3: "\<bar>(fadd (fadd a b) c + d) - (a + b + c + d)\<bar> \<le> 2 / 2 ^ 36" using 2 by linarith
  have q3: "\<bar>a + b + c + d\<bar> + 2 / 2 ^ 36 \<le> 131072" using assms by (simp; linarith?)
  have 3: "\<bar>fadd (fadd (fadd a b) c) d - (a + b + c + d)\<bar> \<le> 3 / 2 ^ 36"
    using fl_near17[OF p3 q3] by (simp add: fadd_def)
  then show ?thesis by (simp add: sumOfFour_def)
qed


lemma tenth_error: "\<bar>fdiv 1 10 - 1 / 10\<bar> \<le> 1 / 2 ^ 56"
proof -
  have "\<bar>1 / 10 :: real\<bar> \<le> 1 / 8" by simp
  moreover have "2 powi (- 1022) \<le> (1 / 8 :: real)" using tiny_le_small by linarith
  ultimately have "\<bar>fl (1 / 10) - 1 / 10\<bar> \<le> 1 / 8 / 2 ^ 53" by (rule fl_abs_error)
  then show ?thesis by (simp add: fdiv_def)
qed

lemma legacyAm_error:
  assumes "\<bar>el\<bar> \<le> 10000"
    and "\<bar>S1 - X1\<bar> \<le> 3 / 2 ^ 36" "\<bar>X1\<bar> \<le> 40000"
    and "\<bar>S05 - X05\<bar> \<le> 3 / 2 ^ 36" "\<bar>X05\<bar> \<le> 40000"
  shows "\<bar>legacyAm el S1 S05 - (2 * el + X1 + X05) / 10\<bar> \<le> 2 / 2 ^ 36"
proof -
  define T where "T = 2 * el + X1 + X05"
  define b2 where "b2 = fadd (fadd (fmul 2 el) S1) S05"
  have T: "\<bar>T\<bar> \<le> 100000" unfolding T_def using assms by linarith
  have p1: "\<bar>2 * el - 2 * el\<bar> \<le> 0" by simp
  have q1: "\<bar>2 * el\<bar> + 0 \<le> 131072" using assms(1) by linarith
  have t: "\<bar>fmul 2 el - 2 * el\<bar> \<le> 1 / 2 ^ 36"
    using fl_near17[OF p1 q1] by (simp add: fmul_def)
  have p2: "\<bar>(fmul 2 el + S1) - (2 * el + X1)\<bar> \<le> 4 / 2 ^ 36"
    using t assms(2) by linarith
  have q2: "\<bar>2 * el + X1\<bar> + 4 / 2 ^ 36 \<le> 131072" using assms(1,3) by (simp; linarith?)
  have b1: "\<bar>fadd (fmul 2 el) S1 - (2 * el + X1)\<bar> \<le> 5 / 2 ^ 36"
    using fl_near17[OF p2 q2] by (simp add: fadd_def)
  have p3: "\<bar>(fadd (fmul 2 el) S1 + S05) - T\<bar> \<le> 8 / 2 ^ 36"
    unfolding T_def using b1 assms(4) by linarith
  have q3: "\<bar>T\<bar> + 8 / 2 ^ 36 \<le> 131072" using T by (simp; linarith?)
  have b2: "\<bar>b2 - T\<bar> \<le> 9 / 2 ^ 36"
    unfolding b2_def using fl_near17[OF p3 q3] by (simp add: fadd_def)
  have "(9 / 2 ^ 36 :: real) \<le> 1" by simp
  then have b2m: "\<bar>b2\<bar> \<le> 100001" using b2 T by linarith
  have a: "\<bar>(1 / 10 :: real)\<bar> \<le> 1 / 10" by simp
  have "\<bar>fdiv 1 10 * b2 - 1 / 10 * T\<bar> \<le> 1 / 2 ^ 56 * 100001 + 1 / 10 * (9 / 2 ^ 36)"
    using tenth_error b2 a b2m by (rule mult_error)
  then have p4: "\<bar>fdiv 1 10 * b2 - T / 10\<bar> \<le> 1 / 2 ^ 36" by simp
  have q4: "\<bar>T / 10\<bar> + 1 / 2 ^ 36 \<le> 131072" using T by (simp; linarith?)
  have "\<bar>fmul (fdiv 1 10) b2 - T / 10\<bar> \<le> 2 / 2 ^ 36"
    using fl_near17[OF p4 q4] by (simp add: fmul_def)
  then show ?thesis unfolding legacyAm_def b2_def T_def .
qed

lemma factor_error:
  assumes "\<bar>D - De\<bar> \<le> 3 / 2 ^ 36" "\<bar>De\<bar> \<le> 20000"
    and "\<bar>a - ae\<bar> \<le> 2 / 10 ^ 12" "0 \<le> ae" "ae \<le> 1"
  shows "\<bar>fadd 1 (fmul (fmul (fl 0.004) D) a) - (1 + 0.004 * De * ae)\<bar> \<le> 1 / 10 ^ 9"
proof -
  define c where "c = fl 0.004"
  define m1 where "m1 = fmul c D"
  define m2 where "m2 = fmul m1 a"
  have "\<bar>0.004 :: real\<bar> \<le> 1 / 128" by simp
  then have "\<bar>fl 0.004 - 0.004\<bar> \<le> 1 / 128 / 2 ^ 53"
    using tiny_le_small by (rule fl_abs_error)
  then have c: "\<bar>c - 0.004\<bar> \<le> 1 / 2 ^ 60" unfolding c_def by simp
  have c4: "\<bar>0.004 :: real\<bar> \<le> 0.004" by simp
  have "(3 / 2 ^ 36 :: real) \<le> 1" by simp
  then have Dm: "\<bar>D\<bar> \<le> 20001" using assms(1,2) by linarith
  have "\<bar>c * D - 0.004 * De\<bar> \<le> 1 / 2 ^ 60 * 20001 + 0.004 * (3 / 2 ^ 36)"
    using c assms(1) c4 Dm by (rule mult_error)
  then have p1: "\<bar>c * D - 0.004 * De\<bar> \<le> 1 / 2 ^ 36" by simp
  have e1: "\<bar>0.004 * De\<bar> \<le> 80" using assms(2) by (simp; linarith?)
  then have q1: "\<bar>0.004 * De\<bar> + 1 / 2 ^ 36 \<le> 131072" by (simp; linarith?)
  have m1: "\<bar>m1 - 0.004 * De\<bar> \<le> 2 / 2 ^ 36"
    unfolding m1_def using fl_near17[OF p1 q1] by (simp add: fmul_def)
  have "(2 / 10 ^ 12 :: real) \<le> 1" by simp
  then have am: "\<bar>a\<bar> \<le> 2" using assms(3,4,5) by linarith
  have "\<bar>m1 * a - 0.004 * De * ae\<bar> \<le> 2 / 2 ^ 36 * 2 + 80 * (2 / 10 ^ 12)"
    using m1 assms(3) e1 am by (rule mult_error)
  then have p2: "\<bar>m1 * a - 0.004 * De * ae\<bar> \<le> 3 / 10 ^ 10" by simp
  have "\<bar>0.004 * De * ae\<bar> = \<bar>0.004 * De\<bar> * ae" using assms(4) by (simp add: abs_mult)
  also have "\<dots> \<le> 80 * 1" using e1 assms(4,5) by (intro mult_mono) simp_all
  finally have e2: "\<bar>0.004 * De * ae\<bar> \<le> 80" by simp
  then have q2: "\<bar>0.004 * De * ae\<bar> + 3 / 10 ^ 10 \<le> 131072" by (simp; linarith?)
  have m2: "\<bar>m2 - 0.004 * De * ae\<bar> \<le> 3 / 10 ^ 10 + 1 / 2 ^ 36"
    unfolding m2_def using fl_near17[OF p2 q2] by (simp add: fmul_def)
  have p3: "\<bar>(1 + m2) - (1 + 0.004 * De * ae)\<bar> \<le> 3 / 10 ^ 10 + 1 / 2 ^ 36"
    using m2 by simp
  have q3: "\<bar>1 + 0.004 * De * ae\<bar> + (3 / 10 ^ 10 + 1 / 2 ^ 36) \<le> 131072"
    using e2 by (simp; linarith?)
  have "\<bar>fadd 1 m2 - (1 + 0.004 * De * ae)\<bar> \<le> 3 / 10 ^ 10 + 1 / 2 ^ 36 + 1 / 2 ^ 36"
    using fl_near17[OF p3 q3] by (simp add: fadd_def)
  then have "\<bar>fadd 1 m2 - (1 + 0.004 * De * ae)\<bar> \<le> 1 / 10 ^ 9" by simp
  then show ?thesis unfolding m2_def m1_def c_def .
qed

lemma product_error:
  assumes "\<bar>raw - re\<bar> \<le> 1 / 10 ^ 9" "\<bar>re\<bar> \<le> 100"
  shows "\<bar>fmul raw 100 - re * 100\<bar> \<le> 1 / 10 ^ 6"
proof -
  have h: "\<bar>100 - 100 :: real\<bar> \<le> 0" "\<bar>100 :: real\<bar> \<le> 100" by simp_all
  have "\<bar>raw * 100 - re * 100\<bar> \<le> 1 / 10 ^ 9 * 100 + 100 * 0"
    using assms(1) h(1) assms(2) h(2) by (rule mult_error)
  then have p: "\<bar>raw * 100 - re * 100\<bar> \<le> 1 / 10 ^ 7" by simp
  have q: "\<bar>re * 100\<bar> + 1 / 10 ^ 7 \<le> 131072" using assms(2) by (simp; linarith?)
  show ?thesis using fl_near17[OF p q] by (simp add: fmul_def)
qed

lemma ceiling_near:
  fixes P s :: real
  assumes "\<bar>P - s\<bar> \<le> 1"
  shows "\<bar>\<lceil>P\<rceil> - \<lceil>s\<rceil>\<bar> \<le> 1"
proof -
  have "P \<le> s + 1" "s \<le> P + 1" using assms by linarith+
  then have "\<lceil>P\<rceil> \<le> \<lceil>s + 1\<rceil>" "\<lceil>s\<rceil> \<le> \<lceil>P + 1\<rceil>" by (simp_all only: ceiling_mono)
  then show ?thesis by simp
qed

lemma exp_lipschitz:
  fixes a b :: real
  assumes "a \<le> 1" "b \<le> 1"
  shows "\<bar>exp a - exp b\<bar> \<le> 3 * \<bar>a - b\<bar>"
proof -
  have step: "exp v - exp u \<le> 3 * (v - u)" if "u \<le> v" "v \<le> 1" for u v :: real
  proof -
    have "1 + (u - v) \<le> exp (u - v)" by (rule exp_ge_add_one_self)
    then have "exp v * (1 + (u - v)) \<le> exp v * exp (u - v)"
      by (intro mult_left_mono) simp_all
    also have "exp v * exp (u - v) = exp u" by (simp add: exp_add[symmetric])
    finally have "exp v - exp u \<le> exp v * (v - u)" by (simp add: algebra_simps)
    also have "\<dots> \<le> 3 * (v - u)"
    proof -
      have "exp v \<le> exp (1::real)" using that(2) by simp
      then have "exp v \<le> 3" using exp_le by linarith
      then show ?thesis using that(1) by (intro mult_right_mono) simp_all
    qed
    finally show ?thesis .
  qed
  show ?thesis
  proof (cases "a \<le> b")
    case True
    then have "exp a \<le> exp b" by simp
    then show ?thesis using step[OF True assms(2)] True by simp
  next
    case False
    then have ba: "b \<le> a" by simp
    then have "exp b \<le> exp a" by simp
    then show ?thesis using step[OF ba assms(1)] ba by simp
  qed
qed

lemma attenuation_error:
  assumes "10 < h" "h \<le> 10000"
    and "\<forall>y\<le>1. \<bar>engine_exp y - exp y\<bar> \<le> 1 / 10 ^ 12"
  shows "\<bar>Math_exp engine_exp (fmul (- fl 0.014) (fsub h 10)) - exp (- 0.014 * (h - 10))\<bar>
           \<le> 2 / 10 ^ 12"
proof -
  define c where "c = - fl 0.014"
  define t where "t = fsub h 10"
  define y where "y = fmul c t"
  define ye where "ye = - 0.014 * (h - 10)"
  have p1: "\<bar>(h - 10) - (h - 10)\<bar> \<le> 0" by simp
  have q1: "\<bar>h - 10\<bar> + 0 \<le> 16384" using assms(1,2) by linarith
  have "\<bar>fl (h - 10) - (h - 10)\<bar> \<le> 0 + 16384 / 2 ^ 53"
    using p1 q1 by (rule fl_near) simp
  then have t: "\<bar>t - (h - 10)\<bar> \<le> 1 / 2 ^ 39" unfolding t_def fsub_def by simp
  have "(1 / 2 ^ 39 :: real) \<le> 1" by simp
  then have tm: "\<bar>t\<bar> \<le> 9991" using t assms(1,2) by linarith
  have "\<bar>0.014 :: real\<bar> \<le> 1 / 64" by simp
  moreover have "2 powi (- 1022) \<le> (1 / 64 :: real)" using tiny_le_small by linarith
  ultimately have "\<bar>fl 0.014 - 0.014\<bar> \<le> 1 / 64 / 2 ^ 53" by (rule fl_abs_error)
  then have "\<bar>fl 0.014 - 0.014\<bar> \<le> 1 / 2 ^ 59" by simp
  then have c: "\<bar>c - (- 0.014)\<bar> \<le> 1 / 2 ^ 59" unfolding c_def by linarith
  have c14: "\<bar>- 0.014 :: real\<bar> \<le> 0.014" by simp
  have "\<bar>c * t - (- 0.014) * (h - 10)\<bar> \<le> 1 / 2 ^ 59 * 9991 + 0.014 * (1 / 2 ^ 39)"
    using c t c14 tm by (rule mult_error)
  then have p2: "\<bar>c * t - ye\<bar> \<le> 5 / 10 ^ 14" unfolding ye_def by simp
  have yem: "\<bar>ye\<bar> \<le> 140" "ye \<le> 0" unfolding ye_def using assms(1,2) by simp_all
  then have q2: "\<bar>ye\<bar> + 5 / 10 ^ 14 \<le> 256" by (simp; linarith?)
  have "\<bar>fl (c * t) - ye\<bar> \<le> 5 / 10 ^ 14 + 256 / 2 ^ 53"
    using p2 q2 by (rule fl_near) simp
  then have y: "\<bar>y - ye\<bar> \<le> 1 / 10 ^ 13" unfolding y_def fmul_def by simp
  have "(1 / 10 ^ 13 :: real) \<le> 1" by simp
  then have y1: "y \<le> 1" using y yem(2) by linarith
  have e: "\<bar>Math_exp engine_exp y - exp y\<bar> \<le> 1 / 10 ^ 12"
    using assms(3) y1 by (simp add: Math_exp_def)
  have "\<bar>exp y - exp ye\<bar> \<le> 3 * \<bar>y - ye\<bar>"
    using y1 yem(2) by (intro exp_lipschitz) simp_all
  also have "\<dots> \<le> 3 * (1 / 10 ^ 13)" using y by (intro mult_left_mono) simp_all
  finally have "\<bar>exp y - exp ye\<bar> \<le> 3 * (1 / 10 ^ 13)" .
  moreover have "1 / 10 ^ 12 + 3 * (1 / 10 ^ 13) \<le> (2 / 10 ^ 12 :: real)" by simp
  ultimately have "\<bar>Math_exp engine_exp y - exp ye\<bar> \<le> 2 / 10 ^ 12" using e by linarith
  then show ?thesis unfolding y_def t_def c_def ye_def .
qed


lemma spec_attenuation_range: "0 \<le> spec_attenuation h" "spec_attenuation h \<le> 1"
  by (simp_all add: spec_attenuation_def)

lemma legacy_attenuation:
  assumes "h \<le> 10000" "\<forall>y\<le>1. \<bar>engine_exp y - exp y\<bar> \<le> 1 / 10 ^ 12"
  shows "\<exists>a. legacyFactor engine_exp (Num h) D = fadd 1 (fmul (fmul (fl 0.004) D) a)
           \<and> \<bar>a - spec_attenuation h\<bar> \<le> 2 / 10 ^ 12"
proof (cases "h \<le> 10")
  case True
  have "\<bar>1 - spec_attenuation h\<bar> \<le> 2 / 10 ^ 12"
    using True by (simp add: spec_attenuation_low)
  then show ?thesis using legacyFactor_at_most_10[OF True] by blast
next
  case False
  then have h: "10 < h" by simp
  have s: "spec_attenuation h = exp (- 0.014 * (h - 10))"
    using h by (simp add: spec_attenuation_def max_def)
  have "legacyFactor engine_exp (Num h) D =
      fadd 1 (fmul (fmul (fl 0.004) D) (Math_exp engine_exp (fmul (- fl 0.014) (fsub h 10))))"
    using h by (simp add: legacyFactor_def)
  then show ?thesis using attenuation_error[OF h assms] unfolding s by blast
qed

lemma legacy_close:
  assumes "elevation p = Some ac" "ring_elevations p = map Some ring"
    and "\<bar>ac\<bar> \<le> 10000" "\<forall>e\<in>set ring. \<bar>e\<bar> \<le> 10000"
    and "height p = Num h" "h \<le> 10000"
    and "\<forall>y\<le>1. \<bar>engine_exp y - exp y\<bar> \<le> 1 / 10 ^ 12"
  shows "\<exists>raw k. OrographyFactor_raw engine_exp p = Some raw
      \<and> \<bar>raw - spec_raw_factor ac (spec_Am ac ring) h\<bar> \<le> 1 / 10 ^ 9
      \<and> orography_factor (calculateTotalElevation engine_exp p) = Some (of_int k / 100)
      \<and> \<bar>k - \<lceil>spec_raw_factor ac (spec_Am ac ring) h * 100\<rceil>\<bar> \<le> 1"
proof -
  from assms(2) obtain n05 n1 e05 e1 s05 s1 w05 w1 where
    r: "ring = [n05, n1, e05, e1, s05, s1, w05, w1]"
    by (auto simp: ring_elevations_def Cons_eq_map_conv)
  have b: "\<bar>n05\<bar> \<le> 10000" "\<bar>n1\<bar> \<le> 10000" "\<bar>e05\<bar> \<le> 10000" "\<bar>e1\<bar> \<le> 10000"
    "\<bar>s05\<bar> \<le> 10000" "\<bar>s1\<bar> \<le> 10000" "\<bar>w05\<bar> \<le> 10000" "\<bar>w1\<bar> \<le> 10000"
    using assms(4) unfolding r by simp_all
  define X1 where "X1 = n1 + s1 + e1 + w1"
  define X05 where "X05 = n05 + s05 + e05 + w05"
  define S1 where "S1 = sumOfFour n1 s1 e1 w1"
  define S05 where "S05 = sumOfFour n05 s05 e05 w05"
  define am where "am = legacyAm ac S1 S05"
  define Ame where "Ame = spec_Am ac ring"
  define D where "D = fsub ac am"
  define re where "re = spec_raw_factor ac Ame h"
  have S1: "\<bar>S1 - X1\<bar> \<le> 3 / 2 ^ 36" unfolding S1_def X1_def
    using b by (intro sumOfFour_error)
  have S05: "\<bar>S05 - X05\<bar> \<le> 3 / 2 ^ 36" unfolding S05_def X05_def
    using b by (intro sumOfFour_error)
  have X: "\<bar>X1\<bar> \<le> 40000" "\<bar>X05\<bar> \<le> 40000" unfolding X1_def X05_def using b by linarith+
  have Ame: "Ame = (2 * ac + X1 + X05) / 10"
    unfolding Ame_def spec_Am_def r X1_def X05_def by simp
  have am: "\<bar>am - Ame\<bar> \<le> 2 / 2 ^ 36"
    unfolding am_def Ame using assms(3) S1 X(1) S05 X(2) by (rule legacyAm_error)
  have "\<bar>2 * ac + X1 + X05\<bar> \<le> 100000" using assms(3) X by linarith
  then have Amem: "\<bar>Ame\<bar> \<le> 10000" unfolding Ame by simp
  have p: "\<bar>(ac - am) - (ac - Ame)\<bar> \<le> 2 / 2 ^ 36" using am by linarith
  have "(2 / 2 ^ 36 :: real) \<le> 1" by simp
  then have q: "\<bar>ac - Ame\<bar> + 2 / 2 ^ 36 \<le> 131072" using assms(3) Amem by linarith
  have D: "\<bar>D - (ac - Ame)\<bar> \<le> 3 / 2 ^ 36"
    unfolding D_def fsub_def using fl_near17[OF p q] by simp
  have De: "\<bar>ac - Ame\<bar> \<le> 20000" using assms(3) Amem by linarith
  from legacy_attenuation[OF assms(6,7), of D] obtain a where
    lf: "legacyFactor engine_exp (Num h) D = fadd 1 (fmul (fmul (fl 0.004) D) a)"
    and a: "\<bar>a - spec_attenuation h\<bar> \<le> 2 / 10 ^ 12"
    by blast
  define raw where "raw = fadd 1 (fmul (fmul (fl 0.004) D) a)"
  have "OrographyFactor_raw engine_exp p = Some (legacyFactor engine_exp (Num h) D)"
    using OrographyFactor_raw_value[OF assms(1,2), of engine_exp] assms(5)
    unfolding D_def am_def S1_def S05_def r by simp
  then have raw: "OrographyFactor_raw engine_exp p = Some raw"
    unfolding raw_def lf .
  have "\<bar>raw - (1 + 0.004 * (ac - Ame) * spec_attenuation h)\<bar> \<le> 1 / 10 ^ 9"
    unfolding raw_def using D De a spec_attenuation_range by (rule factor_error)
  then have close: "\<bar>raw - re\<bar> \<le> 1 / 10 ^ 9"
    unfolding re_def spec_raw_factor_def .
  have "\<bar>re - 1\<bar> = \<bar>0.004 * (ac - Ame)\<bar> * spec_attenuation h"
    unfolding re_def spec_raw_factor_def using spec_attenuation_range(1)[of h]
    by (simp add: abs_mult)
  also have "\<dots> \<le> 80 * 1"
    using De spec_attenuation_range[of h] by (intro mult_mono) simp_all
  finally have rem: "\<bar>re\<bar> \<le> 81" by linarith
  then have rem': "\<bar>re\<bar> \<le> 100" by linarith
  define P where "P = fmul raw 100"
  have P: "\<bar>P - re * 100\<bar> \<le> 1 / 10 ^ 6"
    unfolding P_def using close rem' by (rule product_error)
  have "(1 / 10 ^ 6 :: real) \<le> 1" by simp
  then have P1: "\<bar>P - re * 100\<bar> \<le> 1" and Pm: "\<bar>P\<bar> \<le> 8101" using P rem by linarith+
  have k: "\<bar>\<lceil>P\<rceil> - \<lceil>re * 100\<rceil>\<bar> \<le> 1" using P1 by (rule ceiling_near)
  have "\<lceil>P\<rceil> \<le> 8101" "- 8101 \<le> \<lceil>P\<rceil>"
    using Pm by (simp_all add: ceiling_le_iff le_ceiling_iff)
  moreover have "(8101 :: int) < 2 ^ 52" by simp
  ultimately have "\<bar>\<lceil>P\<rceil>\<bar> < 2 ^ 52" by linarith
  then have "toFixed (fdiv (of_int \<lceil>P\<rceil>) 100) 2 = of_int \<lceil>P\<rceil> / 100"
    by (rule toFixed_hundredths)
  then have "orography_factor (calculateTotalElevation engine_exp p) = Some (of_int \<lceil>P\<rceil> / 100)"
    unfolding calculateTotalElevation_written[OF raw] roundUpHundredths_def P_def by simp
  then show ?thesis using raw close k unfolding re_def Ame_def by blast
qed

text \<open>A correctly rounded exponential is accurate to \<open>1e-12\<close> on arguments up to 1.\<close>

lemma example_exp_accurate: "\<forall>y\<le>1. \<bar>example_exp y - exp y\<bar> \<le> 1 / 10 ^ 12"
proof (intro allI impI)
  fix y :: real
  assume "y \<le> 1"
  then have "exp y \<le> exp 1" by simp
  then have "exp y \<le> 3" using exp_le by linarith
  then have "\<bar>exp y\<bar> \<le> 3" by simp
  moreover have "2 powi (- 1022) \<le> (3 :: real)" using tiny_le_small by linarith
  ultimately have "\<bar>fl (exp y) - exp y\<bar> \<le> 3 / 2 ^ 53" by (rule fl_abs_error)
  moreover have "(3 / 2 ^ 53 :: real) \<le> 1 / 10 ^ 12" by simp
  ultimately show "\<bar>example_exp y - exp y\<bar> \<le> 1 / 10 ^ 12"
    unfolding example_exp_def by linarith
qed

section \<open>The normalisation of the longitude\<close>




section \<open>Claims\<close>

text \<open>
  C9. Of a raw northing, \<^verbatim>\<open>detectLambertCrs\<close> selects Lambert 72 (EPSG:31370), the
  system with the larger false northing, exactly when the northing is above 2,000,000,
  and Lambert 2008 (EPSG:3812) otherwise.
\<close>

theorem detectLambertCrs_threshold:
  "detectLambertCrs (Some northing) = (if northing > 2000000 then EPSG31370 else EPSG3812)
   \<and> false_northing EPSG3812 < false_northing EPSG31370"
  by (simp add: detectLambertCrs_def)

theorem detectLambertCrs_threshold_witness:
  "detectLambertCrs (Some 5400088) = EPSG31370 \<and> detectLambertCrs (Some 2000000) = EPSG3812
   \<and> detectLambertCrs (Some 665262) = EPSG3812"
  using detectLambertCrs_threshold[of 5400088] detectLambertCrs_threshold[of 2000000]
    detectLambertCrs_threshold[of 665262]
  by simp

text \<open>
  C4. The claim: the sample plan is the centre and then N-500, N-1000, E-500, E-1000,
  S-500, S-1000, W-500, W-1000, each ring point a great-circle destination. The original
  script does not follow it: it asks for north, south, east, west at 0.5 km and then at
  1 km, at planar offsets; at the pole its northern point has a latitude above 90, which
  no great-circle destination has.
\<close>

theorem legacy_requests_differ:
  "map fst (calculateAllDirectons 51 4)
     = [''north_05km'', ''south_05km'', ''east_05km'', ''west_05km'',
        ''north_1km'', ''south_1km'', ''east_1km'', ''west_1km'']
   \<and> map label (samplePoints 51 4) = [''CENTER'', ''N'', ''N'', ''E'', ''E'', ''S'', ''S'', ''W'', ''W'']
   \<and> snd (calculateAllDirectons 51 4 ! 1) = (51 - 0.5 / 111, 4)
   \<and> validateLonLat (Some 0) (Some 90) = None
   \<and> fst (snd (calculateAllDirectons 90 0 ! 0)) > 90
   \<and> lat (destinationPoint 90 0 500 0) \<le> 90"
  using pole_lat[of 0 500 0]
  by (simp add: calculateAllDirectons_def samplePoints_list validateLonLat_def)

text \<open>
  C4 as amended. In \<^verbatim>\<open>computeOrographyFactorComplex\<close> the sample plan of every origin is
  exactly nine points in the order CENTER, N-500, N-1000, E-500, E-1000, S-500, S-1000,
  W-500, W-1000: the centre is the origin at distance 0 without bearing, the bearings are
  N = 0, E = 90, S = 180, W = 270, and each ring point is the \<^verbatim>\<open>destinationPoint\<close> of the
  origin at 500 m or 1000 m. The original script builds no such plan: it requests the
  eight ring elevations in the order north, south, east, west at 0.5 km, then at 1 km, at
  the planar offsets of d / 111 degrees of latitude and d / (111 cos latitude) degrees of
  longitude.
\<close>

theorem sample_plan:
  "length (samplePoints lat0 lon0) = 9
   \<and> map (\<lambda>p. (label p, distanceM p, bearingDeg p)) (samplePoints lat0 lon0)
       = [(''CENTER'', 0, None),
          (''N'', 500, Some 0), (''N'', 1000, Some 0),
          (''E'', 500, Some 90), (''E'', 1000, Some 90),
          (''S'', 500, Some 180), (''S'', 1000, Some 180),
          (''W'', 500, Some 270), (''W'', 1000, Some 270)]
   \<and> map (\<lambda>p. \<lparr>lat = lat p, lon = lon p\<rparr>) (samplePoints lat0 lon0)
       = \<lparr>lat = lat0, lon = lon0\<rparr>
         # map (\<lambda>p. destinationPoint lat0 lon0 (distanceM p) (the (bearingDeg p)))
               (tl (samplePoints lat0 lon0))
   \<and> map fst (calculateAllDirectons lat0 lon0)
       = [''north_05km'', ''south_05km'', ''east_05km'', ''west_05km'',
          ''north_1km'', ''south_1km'', ''east_1km'', ''west_1km'']
   \<and> map snd (calculateAllDirectons lat0 lon0)
       = [(lat0 + 0.5 / 111, lon0), (lat0 - 0.5 / 111, lon0),
          (lat0, lon0 + 0.5 / (111 * cos (lat0 * pi / 180))),
          (lat0, lon0 - 0.5 / (111 * cos (lat0 * pi / 180))),
          (lat0 + 1 / 111, lon0), (lat0 - 1 / 111, lon0),
          (lat0, lon0 + 1 / (111 * cos (lat0 * pi / 180))),
          (lat0, lon0 - 1 / (111 * cos (lat0 * pi / 180)))]"
  by (simp add: samplePoints_list calculateAllDirectons_def)

theorem sample_plan_witness:
  "length (samplePoints 51 4) = 9
   \<and> map label (samplePoints 51 4) = [''CENTER'', ''N'', ''N'', ''E'', ''E'', ''S'', ''S'', ''W'', ''W'']
   \<and> map distanceM (samplePoints 51 4) = [0, 500, 1000, 500, 1000, 500, 1000, 500, 1000]"
proof -
  have "map (\<lambda>p. (label p, distanceM p, bearingDeg p)) (samplePoints 51 4)
       = [(''CENTER'', 0, None),
          (''N'', 500, Some 0), (''N'', 1000, Some 0),
          (''E'', 500, Some 90), (''E'', 1000, Some 90),
          (''S'', 500, Some 180), (''S'', 1000, Some 180),
          (''W'', 500, Some 270), (''W'', 1000, Some 270)]"
    and len: "length (samplePoints 51 4) = 9"
    using sample_plan[of 51 4] by blast+
  then have "map (fst \<circ> (\<lambda>p. (label p, distanceM p, bearingDeg p))) (samplePoints 51 4)
       = [''CENTER'', ''N'', ''N'', ''E'', ''E'', ''S'', ''S'', ''W'', ''W'']"
    and "map (fst \<circ> snd \<circ> (\<lambda>p. (label p, distanceM p, bearingDeg p))) (samplePoints 51 4)
       = [0, 500, 1000, 500, 1000, 500, 1000, 500, 1000]"
    unfolding map_map[symmetric] by simp_all
  then show ?thesis using len by (simp add: o_def)
qed

text \<open>
  C5. When the elevation array has another length than the nine points asked for, or the
  centre elevation or one of the eight ring elevations is not a finite number,
  \<^verbatim>\<open>computeOrographyFactorComplex\<close> fails with an error and returns no result, and
  the submit handler shows the error and neither factor, Ac nor Am.
\<close>

theorem missing_elevation_fails:
  assumes "\<And>pts. elevationApi sv pts = Json (Some es)"
    and "length es \<noteq> 9 \<or> (\<exists>i<length es. finiteOrNull (es ! i) = None)"
  shows "computeOrographyFactorComplex (elevationApi sv) lon0 lat0 zr =
           Inl (if length es \<noteq> 9 then UnexpectedElevationResponse
                else if finiteOrNull (es ! 0) = None then NoSiteElevation
                else NoSampledElevations)
       \<and> (\<exists>e. statusEl (submit f sv d) = Failed e)
       \<and> orographyFactorEl (submit f sv d) = None
       \<and> AcEl (submit f sv d) = None \<and> AmEl (submit f sv d) = None"
proof -
  have err: "computeOrographyFactorComplex (elevationApi sv) lo la z =
           Inl (if length es \<noteq> 9 then UnexpectedElevationResponse
                else if finiteOrNull (es ! 0) = None then NoSiteElevation
                else NoSampledElevations)" for lo la z
    using compute_errors[of "elevationApi sv" la lo es z] assms by simp
  obtain res d' where run: "run f sv (clearOutputs d) = (res, d')"
    by (cases "run f sv (clearOutputs d)") auto
  have "res \<noteq> None"
  proof
    assume "res = None"
    with run run_result[of f sv "clearOutputs d" d'] err show False by auto
  qed
  then obtain e where e: "res = Some e" by auto
  from run_failed[of f sv "clearOutputs d" e d'] run e
  have "orographyFactorEl d' = None \<and> AcEl d' = None \<and> AmEl d' = None"
    by (simp add: clearOutputs_def)
  then show ?thesis using err run e by (simp add: submit_def)
qed

theorem missing_elevation_fails_witness:
  "computeOrographyFactorComplex
      (\<lambda>pts. Json (Some [Some (Num 100), Some (Num 90), None, Some (Num 95), Some NaN,
                          Some (Num 80), Some (Num 85), Some (Num 70), Some (Num 75)]))
      4 51 (Some 10) = Inl NoSampledElevations
   \<and> orographyFactorEl (submit (example_form (Num 10))
        ((example_services [])\<lparr>elevationApi := (\<lambda>pts. Json (Some [Some (Num 100), Some (Num 90),
            None, Some (Num 95), Some NaN, Some (Num 80), Some (Num 85), Some (Num 70),
            Some (Num 75)]))\<rparr>) example_display) = None"
proof -
  let ?es = "[Some (Num 100), Some (Num 90), None, Some (Num 95), Some NaN,
              Some (Num 80), Some (Num 85), Some (Num 70), Some (Num 75)]"
  let ?sv = "(example_services [])\<lparr>elevationApi := (\<lambda>pts. Json (Some ?es))\<rparr>"
  have api: "\<And>pts. elevationApi ?sv pts = Json (Some ?es)"
    by simp
  have "2 < length ?es \<and> finiteOrNull (?es ! 2) = None"
    by simp
  then have missing: "length ?es \<noteq> 9 \<or> (\<exists>i<length ?es. finiteOrNull (?es ! i) = None)"
    by blast
  show ?thesis
    using missing_elevation_fails[of ?sv ?es 4 51 "Some 10" "example_form (Num 10)"
        example_display, OF api missing]
    by simp
qed

text \<open>
  C7. A negative reference height is never used in the attenuation. \<^verbatim>\<open>run\<close> rejects it
  before anything is resolved, fetched or computed, and the submit handler shows that error
  and no factor; \<^verbatim>\<open>computeOrographyFactorComplex\<close>, called with it, takes \<open>z = max 0 h = 0\<close>,
  so that it computes what it computes for the height 0, with attenuation 1.
\<close>

theorem negative_reference_height:
  assumes "h < 0"
  shows "(zRefEl f = Num h \<longrightarrow>
            run f sv d = (Some BadReferenceHeight,
                          d\<lparr>statusEl := Blank, warningEl := False, samplesTbody := []\<rparr>)
          \<and> statusEl (submit f sv d) = Failed BadReferenceHeight
          \<and> orographyFactorEl (submit f sv d) = None)
       \<and> computeOrographyFactorComplex api lon0 lat0 (Some h)
           = computeOrographyFactorComplex api lon0 lat0 (Some 0)
       \<and> (computeOrographyFactorComplex api lon0 lat0 (Some h) = Inr r \<longrightarrow>
            c0 r = max 1 (1 + 0.004 * (Ac r - Am r)))"
proof (intro conjI impI)
  assume z: "zRefEl f = Num h"
  show "run f sv d = (Some BadReferenceHeight,
                          d\<lparr>statusEl := Blank, warningEl := False, samplesTbody := []\<rparr>)"
    using z assms by (rule run_negative)
  have "run f sv (clearOutputs d) = (Some BadReferenceHeight,
      (clearOutputs d)\<lparr>statusEl := Blank, warningEl := False, samplesTbody := []\<rparr>)"
    using z assms by (rule run_negative)
  then show "statusEl (submit f sv d) = Failed BadReferenceHeight"
    and "orographyFactorEl (submit f sv d) = None"
    by (simp_all add: submit_def clearOutputs_def)
next
  show "computeOrographyFactorComplex api lon0 lat0 (Some h)
           = computeOrographyFactorComplex api lon0 lat0 (Some 0)"
    using assms by (rule compute_negative)
next
  assume "computeOrographyFactorComplex api lon0 lat0 (Some h) = Inr r"
  then have "c0 r = max 1 (spec_raw_factor (Ac r) (Am r) h)" by (rule compute_floor)
  moreover have "spec_attenuation h = 1" using assms by (simp add: spec_attenuation_low)
  ultimately show "c0 r = max 1 (1 + 0.004 * (Ac r - Am r))"
    by (simp add: spec_raw_factor_def)
qed

theorem negative_reference_height_witness:
  "run (example_form (Num (- 5))) (example_services [200, 100, 100, 100, 100, 100, 100, 100, 100])
       example_display
     = (Some BadReferenceHeight, example_display)
   \<and> statusEl (submit (example_form (Num (- 5)))
        (example_services [200, 100, 100, 100, 100, 100, 100, 100, 100]) example_display)
      = Failed BadReferenceHeight
   \<and> computeOrographyFactorComplex (answering [200, 100, 100, 100, 100, 100, 100, 100, 100]) 4 51 (Some (- 5))
      = computeOrographyFactorComplex (answering [200, 100, 100, 100, 100, 100, 100, 100, 100]) 4 51 (Some 0)"
  using negative_reference_height[of "- 5" "example_form (Num (- 5))"
      "example_services [200, 100, 100, 100, 100, 100, 100, 100, 100]" example_display
      "answering [200, 100, 100, 100, 100, 100, 100, 100, 100]" 4 51]
  by (simp add: example_form_def example_display_def)






text \<open>
  C1. When the elevation API answers with the centre elevation \<open>ac\<close> and eight ring
  elevations, \<^verbatim>\<open>computeOrographyFactorComplex\<close> produces
  \<open>Am = (2 * ac + sum of the ring) / 10\<close> and the raw factor
  \<open>1 + 0.004 * (ac - Am) * exp (- 0.014 * max 0 (z - 10))\<close> with \<open>z = max 0 h\<close>, floored
  at 1. For \<open>ac = 200\<close>, a ring sum of 800 and \<open>h = 10\<close>: Am = 120, attenuation 1,
  factor 1.32, advisory STEEP. The original script computes the same formula in double
  arithmetic: for elevations of at most 10000 m in magnitude and a height of at most
  10000 m, on an engine whose \<^verbatim>\<open>Math.exp\<close> is accurate to 1e-12 on arguments up to 1, its
  raw factor is within 1e-9 of the formula, and the factor it shows is \<open>k / 100\<close> for an
  integer \<open>k\<close> within one of the hundredths of the formula rounded up. On a centre at
  200 m in a ring at 100 m with the height 10 it shows the factor 1.32 and its comment
  for a steep site.
\<close>

theorem orography_formula:
  assumes "length ring = 8"
    and "api (samplePoints lat0 lon0) = Json (Some (map (\<lambda>e. Some (Num e)) (ac # ring)))"
  shows "(\<exists>r. computeOrographyFactorComplex api lon0 lat0 (Some h) = Inr r
            \<and> Ac r = ac \<and> Am r = spec_Am ac ring
            \<and> c0 r = max 1 (spec_raw_factor ac (spec_Am ac ring) h)
            \<and> (ac = 200 \<and> sum_list ring = 800 \<and> h = 10 \<longrightarrow>
                     Am r = 120 \<and> spec_attenuation h = 1
                   \<and> spec_raw_factor ac (Am r) h = 1.32 \<and> c0 r = 1.32 \<and> c0 r > 1.15
                   \<and> spec_classify (c0 r) = STEEP))
       \<and> (elevation p = Some ac \<and> ring_elevations p = map Some ring \<and> height p = Num h
            \<and> \<bar>ac\<bar> \<le> 10000 \<and> (\<forall>e\<in>set ring. \<bar>e\<bar> \<le> 10000) \<and> h \<le> 10000
            \<and> (\<forall>y\<le>1. \<bar>engine_exp y - exp y\<bar> \<le> 1 / 10 ^ 12) \<longrightarrow>
           (\<exists>raw k. OrographyFactor_raw engine_exp p = Some raw
              \<and> \<bar>raw - spec_raw_factor ac (spec_Am ac ring) h\<bar> \<le> 1 / 10 ^ 9
              \<and> orography_factor (calculateTotalElevation engine_exp p) = Some (of_int k / 100)
              \<and> \<bar>k - \<lceil>spec_raw_factor ac (spec_Am ac ring) h * 100\<rceil>\<bar> \<le> 1))
       \<and> orography_factor
            (calculateTotalElevation engine_exp (example_page 200 100 (Num 10))) = Some 1.32
       \<and> orography_factor_comment
            (calculateTotalElevation engine_exp (example_page 200 100 (Num 10)))
           = comment_steep"
proof -
  let ?r = "\<lparr>c0 = max 1 (spec_raw_factor ac (spec_Am ac ring) h),
         Ac = ac, Am = spec_Am ac ring, points = samplePoints lat0 lon0,
         elevations = map Some (ac # ring)\<rparr>"
  have c: "computeOrographyFactorComplex api lon0 lat0 (Some h) = Inr ?r"
    using compute_answered[of ring api lat0 lon0 ac "Some h"] assms(1,2)
    by (simp add: spec_raw_factor_def spec_attenuation_def)
  have s: "spec_Am 200 ring = 120" if "sum_list ring = 800"
    using that by (simp add: spec_Am_def)
  have a: "spec_attenuation 10 = 1"
    by (simp add: spec_attenuation_low)
  have f: "spec_raw_factor 200 120 10 = 1.32"
    by (simp add: spec_raw_factor_def a)
  have scenario: "Am ?r = 120 \<and> spec_attenuation h = 1
       \<and> spec_raw_factor ac (Am ?r) h = 1.32 \<and> c0 ?r = 1.32 \<and> c0 ?r > 1.15
       \<and> spec_classify (c0 ?r) = STEEP"
    if "ac = 200" "sum_list ring = 800" "h = 10"
    by (simp add: that s[OF that(2)] a f spec_classify_def)
  have main: "\<exists>r. computeOrographyFactorComplex api lon0 lat0 (Some h) = Inr r
            \<and> Ac r = ac \<and> Am r = spec_Am ac ring
            \<and> c0 r = max 1 (spec_raw_factor ac (spec_Am ac ring) h)
            \<and> (ac = 200 \<and> sum_list ring = 800 \<and> h = 10 \<longrightarrow>
                     Am r = 120 \<and> spec_attenuation h = 1
                   \<and> spec_raw_factor ac (Am r) h = 1.32 \<and> c0 r = 1.32 \<and> c0 r > 1.15
                   \<and> spec_classify (c0 r) = STEEP)"
  proof (intro exI conjI impI)
    show "computeOrographyFactorComplex api lon0 lat0 (Some h) = Inr ?r" by (rule c)
    show "Ac ?r = ac" "Am ?r = spec_Am ac ring"
      "c0 ?r = max 1 (spec_raw_factor ac (spec_Am ac ring) h)" by simp_all
  next
    assume h: "ac = 200 \<and> sum_list ring = 800 \<and> h = 10"
    then have *: "Am ?r = 120 \<and> spec_attenuation h = 1
       \<and> spec_raw_factor ac (Am ?r) h = 1.32 \<and> c0 ?r = 1.32 \<and> c0 ?r > 1.15
       \<and> spec_classify (c0 ?r) = STEEP"
      using scenario by blast
    from * show "Am ?r = 120" by blast
    from * show "spec_attenuation h = 1" by blast
    from * show "spec_raw_factor ac (Am ?r) h = 1.32" by blast
    from * show "c0 ?r = 1.32" by blast
    from * show "c0 ?r > 1.15" by blast
    from * show "spec_classify (c0 ?r) = STEEP" by blast
  qed
  have close: "\<exists>raw k. OrographyFactor_raw engine_exp p = Some raw
              \<and> \<bar>raw - spec_raw_factor ac (spec_Am ac ring) h\<bar> \<le> 1 / 10 ^ 9
              \<and> orography_factor (calculateTotalElevation engine_exp p) = Some (of_int k / 100)
              \<and> \<bar>k - \<lceil>spec_raw_factor ac (spec_Am ac ring) h * 100\<rceil>\<bar> \<le> 1"
    if "elevation p = Some ac \<and> ring_elevations p = map Some ring \<and> height p = Num h
            \<and> \<bar>ac\<bar> \<le> 10000 \<and> (\<forall>e\<in>set ring. \<bar>e\<bar> \<le> 10000) \<and> h \<le> 10000
            \<and> (\<forall>y\<le>1. \<bar>engine_exp y - exp y\<bar> \<le> 1 / 10 ^ 12)"
    using that by (intro legacy_close) blast+
  have legacy: "orography_factor
         (calculateTotalElevation engine_exp (example_page 200 100 (Num 10))) = Some 1.32"
    "orography_factor_comment
         (calculateTotalElevation engine_exp (example_page 200 100 (Num 10))) = comment_steep"
    unfolding page_steep by simp_all
  show ?thesis
    using main close legacy by blast
qed

theorem orography_formula_witness:
  "(\<exists>r. computeOrographyFactorComplex
            (answering [200, 100, 100, 100, 100, 100, 100, 100, 100]) 4 51 (Some 10) = Inr r
       \<and> Ac r = 200 \<and> Am r = 120 \<and> c0 r = 1.32)
   \<and> (\<exists>raw k. OrographyFactor_raw example_exp (example_page 200 100 (Num 10)) = Some raw
        \<and> \<bar>raw - spec_raw_factor 200 (spec_Am 200 [100, 100, 100, 100, 100, 100, 100, 100]) 10\<bar>
            \<le> 1 / 10 ^ 9
        \<and> orography_factor (calculateTotalElevation example_exp (example_page 200 100 (Num 10)))
            = Some (of_int k / 100)
        \<and> \<bar>k - \<lceil>spec_raw_factor 200 (spec_Am 200 [100, 100, 100, 100, 100, 100, 100, 100]) 10
                  * 100\<rceil>\<bar> \<le> 1)
   \<and> orography_factor (calculateTotalElevation example_exp (example_page 200 100 (Num 10)))
       = Some 1.32"
proof -
  let ?ring = "[100, 100, 100, 100, 100, 100, 100, 100] :: real list"
  have pg: "elevation (example_page 200 100 (Num 10)) = Some 200"
    "ring_elevations (example_page 200 100 (Num 10)) = map Some ?ring"
    "height (example_page 200 100 (Num 10)) = Num 10"
    by (simp_all add: example_page_def ring_elevations_def)
  have bd: "\<bar>200 :: real\<bar> \<le> 10000" "\<forall>e\<in>set ?ring. \<bar>e\<bar> \<le> 10000" "(10 :: real) \<le> 10000"
    by simp_all
  have api: "length ?ring = 8"
    "answering [200, 100, 100, 100, 100, 100, 100, 100, 100] (samplePoints 51 4)
       = Json (Some (map (\<lambda>e. Some (Num e)) (200 # ?ring)))"
    by (simp_all add: answering_def)
  note t = orography_formula[of ?ring "answering [200, 100, 100, 100, 100, 100, 100, 100, 100]"
      51 4 200 10 "example_page 200 100 (Num 10)" example_exp, OF api]
  have sum: "sum_list ?ring = 800" by simp
  from t have main: "\<exists>r. computeOrographyFactorComplex
            (answering [200, 100, 100, 100, 100, 100, 100, 100, 100]) 4 51 (Some 10) = Inr r
       \<and> Ac r = 200 \<and> Am r = 120 \<and> c0 r = 1.32"
    using sum by (simp only: simp_thms) blast
  from t pg bd example_exp_accurate
  have close: "\<exists>raw k. OrographyFactor_raw example_exp (example_page 200 100 (Num 10)) = Some raw
        \<and> \<bar>raw - spec_raw_factor 200 (spec_Am 200 ?ring) 10\<bar> \<le> 1 / 10 ^ 9
        \<and> orography_factor (calculateTotalElevation example_exp (example_page 200 100 (Num 10)))
            = Some (of_int k / 100)
        \<and> \<bar>k - \<lceil>spec_raw_factor 200 (spec_Am 200 ?ring) 10 * 100\<rceil>\<bar> \<le> 1"
    by blast
  from t have shown: "orography_factor
      (calculateTotalElevation example_exp (example_page 200 100 (Num 10))) = Some 1.32"
    by blast
  show ?thesis using main close shown by blast
qed

text \<open>
  C2. The claim: for every input the factor is at least 1.0. It fails in the original
  script, which has no floor: a centre at 0 m in a ring at 100 m is shown the factor 0.68.
\<close>

theorem legacy_factor_below_one:
  "orography_factor (calculateTotalElevation example_exp (example_page 0 100 (Num 10)))
     = Some 0.68
   \<and> (0.68 :: real) < 1"
  unfolding page_low by simp

text \<open>
  C2 as amended. Whatever the elevation API answers, a factor returned by
  \<^verbatim>\<open>computeOrographyFactorComplex\<close> is at least 1, and for a reference height \<open>h\<close> it
  is \<open>max 1\<close> of the raw factor. The original script applies no floor: whenever it
  writes, it shows the raw factor it computed, rounded up to two decimals by
  \<^verbatim>\<open>Math.ceil(raw * 100) / 100\<close> (these are the decimals of the integer that
  \<^verbatim>\<open>Math.ceil\<close> returns, as long as that is below \<open>2 ^ 52\<close> in magnitude), and what
  it shows is below 1 whenever the product \<^verbatim>\<open>raw * 100\<close> it computed is at most 99.
\<close>

theorem factor_floor:
  "(computeOrographyFactorComplex api lon0 lat0 zr = Inr r \<longrightarrow> 1 \<le> c0 r)
   \<and> (computeOrographyFactorComplex api lon0 lat0 (Some h) = Inr r \<longrightarrow>
        c0 r = max 1 (spec_raw_factor (Ac r) (Am r) h))
   \<and> (OrographyFactor_raw engine_exp p = Some raw \<longrightarrow>
        orography_factor (calculateTotalElevation engine_exp p)
          = Some (toFixed (roundUpHundredths raw) 2)
        \<and> (\<bar>\<lceil>fmul raw 100\<rceil>\<bar> < 2 ^ 52 \<longrightarrow>
             orography_factor (calculateTotalElevation engine_exp p)
               = Some (of_int \<lceil>fmul raw 100\<rceil> / 100))
        \<and> (fmul raw 100 \<le> 99 \<longrightarrow> toFixed (roundUpHundredths raw) 2 < 1))"
proof (intro conjI impI)
  assume "computeOrographyFactorComplex api lon0 lat0 zr = Inr r"
  then show "1 \<le> c0 r" by (rule compute_ge_one)
next
  assume "computeOrographyFactorComplex api lon0 lat0 (Some h) = Inr r"
  then show "c0 r = max 1 (spec_raw_factor (Ac r) (Am r) h)" by (rule compute_floor)
next
  assume raw: "OrographyFactor_raw engine_exp p = Some raw"
  show w: "orography_factor (calculateTotalElevation engine_exp p)
          = Some (toFixed (roundUpHundredths raw) 2)"
    unfolding calculateTotalElevation_written[OF raw] by simp
  assume "\<bar>\<lceil>fmul raw 100\<rceil>\<bar> < 2 ^ 52"
  then show "orography_factor (calculateTotalElevation engine_exp p)
               = Some (of_int \<lceil>fmul raw 100\<rceil> / 100)"
    unfolding w roundUpHundredths_def by (simp add: toFixed_hundredths)
next
  assume "fmul raw 100 \<le> 99"
  then have "\<lceil>fmul raw 100\<rceil> \<le> 99" by (simp add: ceiling_le_iff)
  then show "toFixed (roundUpHundredths raw) 2 < 1"
    unfolding roundUpHundredths_def by (rule toFixed_below_one)
qed

theorem factor_floor_witness:
  "computeOrographyFactorComplex (answering [0, 100, 100, 100, 100, 100, 100, 100, 100]) 4 51 (Some 10)
     = Inr \<lparr>c0 = 1, Ac = 0, Am = 80, points = samplePoints 51 4,
            elevations = map Some [0, 100, 100, 100, 100, 100, 100, 100, 100]\<rparr>
   \<and> max 1 (spec_raw_factor 0 80 10) = 1
   \<and> OrographyFactor_raw example_exp (example_page 0 100 (Num 10))
       = Some (3062447746611937 / 2 ^ 52)
   \<and> fmul (3062447746611937 / 2 ^ 52) 100 = 68
   \<and> orography_factor (calculateTotalElevation example_exp (example_page 0 100 (Num 10)))
       = Some (of_int \<lceil>fmul (3062447746611937 / 2 ^ 52) 100\<rceil> / 100)
   \<and> toFixed (roundUpHundredths (3062447746611937 / 2 ^ 52)) 2 < 1"
proof -
  let ?r = "\<lparr>c0 = 1, Ac = 0, Am = 80, points = samplePoints 51 4,
            elevations = map Some [0, 100, 100, 100, 100, 100, 100, 100, 100]\<rparr>"
  have c: "computeOrographyFactorComplex (answering [0, 100, 100, 100, 100, 100, 100, 100, 100]) 4 51 (Some 10)
     = Inr ?r"
    using compute_answered[of "[100, 100, 100, 100, 100, 100, 100, 100]"
        "answering [0, 100, 100, 100, 100, 100, 100, 100, 100]" 51 4 0 "Some 10"]
    by (simp add: answering_def spec_Am_def)
  have p: "fmul (3062447746611937 / 2 ^ 52) 100 = 68"
    by (rule dbl_42)
  have small: "\<bar>\<lceil>fmul (3062447746611937 / 2 ^ 52) 100\<rceil>\<bar> < 2 ^ 52"
    "fmul (3062447746611937 / 2 ^ 52) 100 \<le> 99"
    unfolding p by simp_all
  note t = factor_floor[of "answering [0, 100, 100, 100, 100, 100, 100, 100, 100]" 4 51 "Some 10" ?r
        10 example_exp "example_page 0 100 (Num 10)" "3062447746611937 / 2 ^ 52"]
  have "max 1 (spec_raw_factor 0 80 10) = 1"
    using t c by simp
  moreover have "orography_factor (calculateTotalElevation example_exp (example_page 0 100 (Num 10)))
       = Some (of_int \<lceil>fmul (3062447746611937 / 2 ^ 52) 100\<rceil> / 100)"
    "toFixed (roundUpHundredths (3062447746611937 / 2 ^ 52)) 2 < 1"
    using t raw_low[of example_exp] small by blast+
  ultimately show ?thesis using c p raw_low[of example_exp] by blast
qed




text \<open>
  C10. The original script does not validate the tower height. When the height parses as
  NaN and the nine elevations are there, \<^verbatim>\<open>calculateTotalElevation\<close> does not stop: the
  test \<^verbatim>\<open>towerHeight > 10\<close> is false, the exponential is taken at \<^verbatim>\<open>10 - 10\<close> and is 1,
  and a factor and its comment are written, the same as for any height of at most 10 m.
\<close>

theorem legacy_height_not_validated:
  assumes "elevation p = Some ac" and "ring_elevations p = map Some ring"
    and "height p = NaN" and "h \<le> 10"
  shows "\<exists>raw. OrographyFactor_raw engine_exp p = Some raw
           \<and> raw = fadd 1 (fmul (fmul (fl 0.004)
                     (fsub ac (legacyAm ac (sumOfFour (ring ! 1) (ring ! 5) (ring ! 3) (ring ! 7))
                                           (sumOfFour (ring ! 0) (ring ! 4) (ring ! 2) (ring ! 6))))) 1)
           \<and> orography_factor (calculateTotalElevation engine_exp p)
               = Some (toFixed (roundUpHundredths raw) 2)
           \<and> orography_factor_comment (calculateTotalElevation engine_exp p)
               = legacyComment (roundUpHundredths raw)
           \<and> calculateTotalElevation engine_exp (p\<lparr>height := Num h\<rparr>)
               = (calculateTotalElevation engine_exp p)\<lparr>height := Num h\<rparr>"
proof -
  let ?raw = "fadd 1 (fmul (fmul (fl 0.004)
                     (fsub ac (legacyAm ac (sumOfFour (ring ! 1) (ring ! 5) (ring ! 3) (ring ! 7))
                                           (sumOfFour (ring ! 0) (ring ! 4) (ring ! 2) (ring ! 6))))) 1)"
  have raw: "OrographyFactor_raw engine_exp p = Some ?raw"
    using OrographyFactor_raw_value[OF assms(1,2), of engine_exp] assms(3)
    by (simp add: legacyFactor_nan)
  have rawh: "OrographyFactor_raw engine_exp (p\<lparr>height := Num h\<rparr>) = Some ?raw"
    using OrographyFactor_raw_nan[OF assms(3,4)] raw by simp
  have "calculateTotalElevation engine_exp (p\<lparr>height := Num h\<rparr>)
               = (calculateTotalElevation engine_exp p)\<lparr>height := Num h\<rparr>"
    unfolding calculateTotalElevation_written[OF raw] calculateTotalElevation_written[OF rawh]
    by simp
  moreover have "orography_factor (calculateTotalElevation engine_exp p)
               = Some (toFixed (roundUpHundredths ?raw) 2)"
    "orography_factor_comment (calculateTotalElevation engine_exp p)
               = legacyComment (roundUpHundredths ?raw)"
    unfolding calculateTotalElevation_written[OF raw] by simp_all
  ultimately show ?thesis using raw by blast
qed

theorem legacy_height_not_validated_witness:
  "orography_factor (calculateTotalElevation example_exp (example_page 200 100 NaN)) = Some 1.32
   \<and> orography_factor_comment (calculateTotalElevation example_exp (example_page 200 100 NaN))
       = comment_steep
   \<and> calculateTotalElevation example_exp ((example_page 200 100 NaN)\<lparr>height := Num 2\<rparr>)
       = (calculateTotalElevation example_exp (example_page 200 100 NaN))\<lparr>height := Num 2\<rparr>"
proof -
  let ?ring = "[100, 100, 100, 100, 100, 100, 100, 100] :: real list"
  have pg: "elevation (example_page 200 100 NaN) = Some 200"
    "ring_elevations (example_page 200 100 NaN) = map Some ?ring"
    "height (example_page 200 100 NaN) = NaN" "(2::real) \<le> 10"
    by (simp_all add: example_page_def ring_elevations_def)
  have r: "OrographyFactor_raw example_exp (example_page 200 100 NaN)
             = Some (5944751508129055 / 2 ^ 52)"
    using OrographyFactor_raw_nan[of "example_page 200 100 NaN" 10 example_exp]
      raw_steep[of example_exp]
    by (simp add: example_page_def)
  from legacy_height_not_validated[OF pg, of example_exp] obtain raw where
    o: "OrographyFactor_raw example_exp (example_page 200 100 NaN) = Some raw"
    and f: "orography_factor (calculateTotalElevation example_exp (example_page 200 100 NaN))
           = Some (toFixed (roundUpHundredths raw) 2)"
      "orography_factor_comment (calculateTotalElevation example_exp (example_page 200 100 NaN))
           = legacyComment (roundUpHundredths raw)"
      "calculateTotalElevation example_exp ((example_page 200 100 NaN)\<lparr>height := Num 2\<rparr>)
           = (calculateTotalElevation example_exp (example_page 200 100 NaN))\<lparr>height := Num 2\<rparr>"
    by blast
  have e: "raw = 5944751508129055 / 2 ^ 52"
    using o r by (simp only: option.inject)
  show ?thesis
    using f unfolding e shown_steep by simp
qed

end
